theory Spec2Isabelle
  imports Complex_Main
begin

section \<open>JavaScript values\<close>

text \<open>
  The library works on untyped JavaScript objects: schema metadata is a
  \<^verbatim>\<open>Record<string, unknown>\<close>, affordance records are built with object spread, and
  most reads go through \<^verbatim>\<open>as any\<close>. Values are therefore modelled dynamically.
  A number is a real or \<open>JNaN\<close> (the one number that is not \<^verbatim>\<open>===\<close> to itself); an
  object is the list of its own properties in enumeration order. Strings are lists of
  8-bit characters, and case conversion is the ASCII one.
\<close>

datatype jsval =
    JUndefined
  | JNull
  | JBool bool
  | JNum real
  | JNaN
  | JStr string
  | JArr "jsval list"
  | JObj "(string \<times> jsval) list"

type_synonym jsobj = "(string \<times> jsval) list"

datatype js_error = TypeError

text \<open>\<^verbatim>\<open>typeof v\<close>.\<close>

fun typeof :: "jsval \<Rightarrow> string" where
  "typeof JUndefined = ''undefined''"
| "typeof JNull = ''object''"
| "typeof (JBool b) = ''boolean''"
| "typeof (JNum r) = ''number''"
| "typeof JNaN = ''number''"
| "typeof (JStr s) = ''string''"
| "typeof (JArr xs) = ''object''"
| "typeof (JObj ps) = ''object''"

text \<open>Truthiness, as \<^verbatim>\<open>if (v)\<close>, \<^verbatim>\<open>!v\<close>, \<^verbatim>\<open>a && b\<close> and \<^verbatim>\<open>a || b\<close> test it.\<close>

fun truthy :: "jsval \<Rightarrow> bool" where
  "truthy JUndefined = False"
| "truthy JNull = False"
| "truthy (JBool b) = b"
| "truthy (JNum r) = (r \<noteq> 0)"
| "truthy JNaN = False"
| "truthy (JStr s) = (s \<noteq> [])"
| "truthy (JArr xs) = True"
| "truthy (JObj ps) = True"

text \<open>\<^verbatim>\<open>v == null\<close>: the value is \<^verbatim>\<open>null\<close> or \<^verbatim>\<open>undefined\<close>.\<close>

fun nullish :: "jsval \<Rightarrow> bool" where
  "nullish JUndefined = True"
| "nullish JNull = True"
| "nullish v = False"

text \<open>\<^verbatim>\<open>a ?? b\<close>.\<close>

definition coalesce :: "jsval \<Rightarrow> jsval \<Rightarrow> jsval" where
  "coalesce a b = (if nullish a then b else a)"

text \<open>
  \<^verbatim>\<open>a === b\<close>. Primitives compare by value, and \<open>JNaN\<close> equals nothing. Arrays and
  objects compare by reference, which a value-level model does not have: two of them
  are taken to be different references here, and each use site says what identical
  references would do.
\<close>

fun strict_equal :: "jsval \<Rightarrow> jsval \<Rightarrow> bool" where
  "strict_equal JUndefined JUndefined = True"
| "strict_equal JNull JNull = True"
| "strict_equal (JBool a) (JBool b) = (a = b)"
| "strict_equal (JNum a) (JNum b) = (a = b)"
| "strict_equal (JStr a) (JStr b) = (a = b)"
| "strict_equal a b = False"

subsection \<open>Objects\<close>

text \<open>\<^verbatim>\<open>o[k]\<close>: the value of property \<open>k\<close>, \<^verbatim>\<open>undefined\<close> when \<open>o\<close> has none.\<close>

definition obj_get :: "string \<Rightarrow> jsobj \<Rightarrow> jsval" where
  "obj_get k ps = (case map_of ps k of None \<Rightarrow> JUndefined | Some v \<Rightarrow> v)"

text \<open>\<^verbatim>\<open>k in o\<close>.\<close>

definition obj_has :: "string \<Rightarrow> jsobj \<Rightarrow> bool" where
  "obj_has k ps = (map_of ps k \<noteq> None)"

text \<open>
  \<^verbatim>\<open>o[k] = v\<close>: an existing property keeps its place, a new one is enumerated last.
  (JavaScript enumerates keys that are canonical array indices before all others; such
  keys are written here only in ascending order, where the two orders agree.)
\<close>

fun obj_set :: "string \<Rightarrow> 'v \<Rightarrow> (string \<times> 'v) list \<Rightarrow> (string \<times> 'v) list" where
  "obj_set k v [] = [(k, v)]"
| "obj_set k v ((k', v') # ps) = (if k = k' then (k, v) # ps else (k', v') # obj_set k v ps)"

text \<open>\<^verbatim>\<open>Object.assign(target, source)\<close> on the property lists.\<close>

definition assign :: "(string \<times> 'v) list \<Rightarrow> (string \<times> 'v) list \<Rightarrow> (string \<times> 'v) list" where
  "assign target source = fold (\<lambda>(k, v). obj_set k v) source target"

text \<open>\<^verbatim>\<open>String(n)\<close> for a natural number.\<close>

fun digit_char :: "nat \<Rightarrow> char" where
  "digit_char n = char_of (48 + n)"

function show_nat :: "nat \<Rightarrow> string" where
  "show_nat n = (if n < 10 then [digit_char n] else show_nat (n div 10) @ [digit_char (n mod 10)])"
  by pat_completeness auto
termination
  by (relation "measure id") auto

text \<open>
  The own enumerable properties a spread \<^verbatim>\<open>{ ...v }\<close> copies: those of an object, the
  indexed elements of an array, the indexed characters of a string, none of any other
  value.
\<close>

fun indexed :: "nat \<Rightarrow> jsval list \<Rightarrow> jsobj" where
  "indexed i [] = []"
| "indexed i (v # vs) = (show_nat i, v) # indexed (Suc i) vs"

fun own_entries :: "jsval \<Rightarrow> jsobj" where
  "own_entries (JObj ps) = ps"
| "own_entries (JArr vs) = indexed 0 vs"
| "own_entries (JStr s) = indexed 0 (map (\<lambda>c. JStr [c]) s)"
| "own_entries v = []"

text \<open>\<^verbatim>\<open>{ ...a, ...b }\<close>.\<close>

definition spread :: "jsobj \<Rightarrow> jsobj \<Rightarrow> jsobj" where
  "spread a b = assign (assign [] a) b"

text \<open>No property of the object has the value \<^verbatim>\<open>NaN\<close>.\<close>

abbreviation nan_free :: "jsobj \<Rightarrow> bool" where
  "nan_free r \<equiv> list_all (\<lambda>p. snd p \<noteq> JNaN) r"

section \<open>Strings and the regular expressions of inference.ts\<close>

definition char_code :: "char \<Rightarrow> nat" where
  "char_code c = of_char c"

definition is_upper :: "char \<Rightarrow> bool" where
  "is_upper c = (65 \<le> char_code c \<and> char_code c \<le> 90)"

definition is_lower :: "char \<Rightarrow> bool" where
  "is_lower c = (97 \<le> char_code c \<and> char_code c \<le> 122)"

definition is_digit :: "char \<Rightarrow> bool" where
  "is_digit c = (48 \<le> char_code c \<and> char_code c \<le> 57)"

text \<open>The class \<^verbatim>\<open>\w\<close>.\<close>

definition is_word_char :: "char \<Rightarrow> bool" where
  "is_word_char c = (is_upper c \<or> is_lower c \<or> is_digit c \<or> c = CHR ''_'')"

definition lower_char :: "char \<Rightarrow> char" where
  "lower_char c = (if is_upper c then char_of (char_code c + 32) else c)"

definition upper_char :: "char \<Rightarrow> char" where
  "upper_char c = (if is_lower c then char_of (char_code c - 32) else c)"

definition toLowerCase :: "string \<Rightarrow> string" where
  "toLowerCase s = map lower_char s"

fun startsWith :: "string \<Rightarrow> string \<Rightarrow> bool" where
  "startsWith s [] = True"
| "startsWith [] (p # ps) = False"
| "startsWith (c # cs) (p # ps) = (c = p \<and> startsWith cs ps)"

text \<open>\<^verbatim>\<open>s.endsWith(suffix)\<close>, also a pattern \<^verbatim>\<open>/suffix$/\<close> of literal characters.\<close>

definition endsWith :: "string \<Rightarrow> string \<Rightarrow> bool" where
  "endsWith s sfx = startsWith (rev s) (rev sfx)"

text \<open>
  A pattern \<^verbatim>\<open>/^(a|b|...)$/i\<close> whose alternatives are literal: the key, lower-cased,
  is one of the alternatives. An optional \<^verbatim>\<open>_?\<close> doubles an alternative.
\<close>

definition matches_any_ci :: "string list \<Rightarrow> string \<Rightarrow> bool" where
  "matches_any_ci alternatives key = (toLowerCase key \<in> set alternatives)"

definition ID_PATTERNS :: "string \<Rightarrow> bool" where
  "ID_PATTERNS = matches_any_ci [''id'', ''_id'', ''uuid'', ''uid'', ''key'', ''pk'']"

text \<open>\<^verbatim>\<open>/(_id|Id|ID|_key|Key)$/\<close>, case-sensitive.\<close>

definition ID_SUFFIX_PATTERNS :: "string \<Rightarrow> bool" where
  "ID_SUFFIX_PATTERNS key =
     (endsWith key ''_id'' \<or> endsWith key ''Id'' \<or> endsWith key ''ID''
      \<or> endsWith key ''_key'' \<or> endsWith key ''Key'')"

definition CREATED_PATTERNS :: "string \<Rightarrow> bool" where
  "CREATED_PATTERNS = matches_any_ci
     [''created_at'', ''createdat'', ''creation_date'', ''creationdate'',
      ''date_created'', ''datecreated'', ''ctime'']"

definition UPDATED_PATTERNS :: "string \<Rightarrow> bool" where
  "UPDATED_PATTERNS = matches_any_ci
     [''updated_at'', ''updatedat'', ''modified_at'', ''modifiedat'',
      ''last_modified'', ''lastmodified'', ''mtime'', ''changed_at'', ''changedat'']"

definition DELETED_PATTERNS :: "string \<Rightarrow> bool" where
  "DELETED_PATTERNS = matches_any_ci
     [''deleted_at'', ''deletedat'', ''removed_at'', ''removedat'']"

definition SECRET_PATTERNS :: "string \<Rightarrow> bool" where
  "SECRET_PATTERNS = matches_any_ci
     [''password'', ''secret'', ''token'', ''api_key'', ''apikey'', ''access_key'',
      ''accesskey'', ''private_key'', ''privatekey'', ''hash'', ''salt'']"

definition EMAIL_PATTERNS :: "string \<Rightarrow> bool" where
  "EMAIL_PATTERNS = matches_any_ci [''email'', ''e_mail'']"

definition NAME_PATTERNS :: "string \<Rightarrow> bool" where
  "NAME_PATTERNS = matches_any_ci
     [''name'', ''title'', ''label'', ''display_name'', ''displayname'',
      ''full_name'', ''fullname'', ''username'']"

definition DESCRIPTION_PATTERNS :: "string \<Rightarrow> bool" where
  "DESCRIPTION_PATTERNS = matches_any_ci
     [''description'', ''summary'', ''body'', ''content'', ''text'', ''bio'', ''about'',
      ''notes'']"

text \<open>\<^verbatim>\<open>/^(image|photo|avatar|thumbnail|picture|icon|logo)(_?url)?$/i\<close>.\<close>

definition IMAGE_PATTERNS :: "string \<Rightarrow> bool" where
  "IMAGE_PATTERNS = matches_any_ci
     (concat (map (\<lambda>w. [w, w @ ''url'', w @ ''_url''])
        [''image'', ''photo'', ''avatar'', ''thumbnail'', ''picture'', ''icon'', ''logo'']))"

definition STATUS_PATTERNS :: "string \<Rightarrow> bool" where
  "STATUS_PATTERNS = matches_any_ci [''status'', ''state'', ''phase'', ''stage'']"

subsection \<open>humanizeFieldName\<close>

text \<open>\<^verbatim>\<open>.replace(/([a-z])([A-Z])/g, '$1 $2')\<close>.\<close>

fun space_camel :: "string \<Rightarrow> string" where
  "space_camel (a # b # cs) =
     (if is_lower a \<and> is_upper b then a # CHR '' '' # b # space_camel cs
      else a # space_camel (b # cs))"
| "space_camel cs = cs"

text \<open>
  \<^verbatim>\<open>.replace(/[_-]+/g, ' ')\<close>: a run of separators becomes one space. The flag says
  whether the previous character was a separator of the current run.
\<close>

definition is_sep :: "char \<Rightarrow> bool" where
  "is_sep c = (c = CHR ''_'' \<or> c = CHR ''-'')"

fun space_seps :: "bool \<Rightarrow> string \<Rightarrow> string" where
  "space_seps prev [] = []"
| "space_seps prev (c # cs) =
     (if is_sep c then (if prev then space_seps True cs else CHR '' '' # space_seps True cs)
      else c # space_seps False cs)"

text \<open>
  \<^verbatim>\<open>.replace(/\b\w/g, (c) => c.toUpperCase())\<close>: a word character is replaced when no
  word character stands before it. The flag says whether the previous character was
  one.
\<close>

fun capitalize_words :: "bool \<Rightarrow> string \<Rightarrow> string" where
  "capitalize_words prev [] = []"
| "capitalize_words prev (c # cs) =
     (if is_word_char c \<and> \<not> prev then upper_char c # capitalize_words True cs
      else c # capitalize_words (is_word_char c) cs)"

text \<open>\<^verbatim>\<open>.trim()\<close>, on the white space of the 8-bit range.\<close>

definition is_space :: "char \<Rightarrow> bool" where
  "is_space c = (char_code c \<in> set [9, 10, 11, 12, 13, 32, 160])"

definition trim :: "string \<Rightarrow> string" where
  "trim s = rev (dropWhile is_space (rev (dropWhile is_space s)))"

definition humanizeFieldName :: "string \<Rightarrow> string" where
  "humanizeFieldName key = trim (capitalize_words False (space_seps False (space_camel key)))"

section \<open>inference.ts: schema introspection\<close>

text \<open>
  A schema node as the introspection helpers read it. \<open>zod_def\<close> is
  \<^verbatim>\<open>schema._zod?.def\<close>, \<open>None\<close> when the node has no readable definition; \<open>def_type\<close> is
  \<^verbatim>\<open>def.type\<close>, \<open>None\<close> when it is missing. \<open>minValue\<close> and \<open>maxValue\<close> are the
  instance properties of the node, and \<open>node_meta\<close> is what \<^verbatim>\<open>schema.meta?.()\<close> returns
  (\<open>None\<close> for \<^verbatim>\<open>undefined\<close>, \<^verbatim>\<open>null\<close>, no such method, or a call that throws).
  \<open>entries\<close> is the \<^verbatim>\<open>entries\<close> object of an enum definition in its enumeration order,
  \<open>has_defaultValue\<close> is \<^verbatim>\<open>'defaultValue' in def\<close>.
\<close>

datatype zcheck = ZCheck (check_kind: "string option") (check_value: jsval)

datatype znode =
  ZNode (zod_def: "zdef option") (minValue: jsval) (maxValue: jsval) (node_meta: "jsobj option")
and zdef =
  ZDef (def_type: "string option") (innerType: "znode option") (checks: "zcheck list option")
    (format: "string option") (entries: "(string \<times> string) list option")
    (enum_values: "string list option") (has_defaultValue: bool)

text \<open>\<^verbatim>\<open>def.type === 'optional' || def.type === 'nullable' || def.type === 'default'\<close>.\<close>

definition is_wrapper :: "string option \<Rightarrow> bool" where
  "is_wrapper t = (t = Some ''optional'' \<or> t = Some ''nullable'' \<or> t = Some ''default'')"

text \<open>
  Both unwrapping functions recurse into \<^verbatim>\<open>def.innerType\<close> without looking at it. When a
  wrapper definition carries none, the recursive call reads \<^verbatim>\<open>_zod\<close> of \<^verbatim>\<open>undefined\<close>
  and the engine raises a TypeError.
\<close>

fun getZodBaseType :: "znode \<Rightarrow> js_error + string" where
  "getZodBaseType (ZNode None mn mx m) = Inr ''unknown''"
| "getZodBaseType (ZNode (Some (ZDef t inner cs f es vs dv)) mn mx m) =
     (if is_wrapper t then
        (case inner of None \<Rightarrow> Inl TypeError | Some i \<Rightarrow> getZodBaseType i)
      else Inr (case t of None \<Rightarrow> ''unknown'' | Some s \<Rightarrow> s))"

fun unwrapZodSchema :: "znode \<Rightarrow> js_error + znode" where
  "unwrapZodSchema (ZNode None mn mx m) = Inr (ZNode None mn mx m)"
| "unwrapZodSchema (ZNode (Some (ZDef t inner cs f es vs dv)) mn mx m) =
     (if is_wrapper t then
        (case inner of None \<Rightarrow> Inl TypeError | Some i \<Rightarrow> unwrapZodSchema i)
      else Inr (ZNode (Some (ZDef t inner cs f es vs dv)) mn mx m))"

text \<open>A terminal node: one that is not a wrapper.\<close>

definition is_terminal :: "znode \<Rightarrow> bool" where
  "is_terminal n = (case zod_def n of None \<Rightarrow> True | Some d \<Rightarrow> \<not> is_wrapper (def_type d))"

text \<open>Every wrapper layer of the node carries its inner node, as Zod builds them.\<close>

fun wrappers_ok :: "znode \<Rightarrow> bool" where
  "wrappers_ok (ZNode None mn mx m) = True"
| "wrappers_ok (ZNode (Some (ZDef t inner cs f es vs dv)) mn mx m) =
     (if is_wrapper t then (case inner of None \<Rightarrow> False | Some i \<Rightarrow> wrappers_ok i)
      else True)"

definition hasZodCheck :: "znode \<Rightarrow> string \<Rightarrow> js_error + bool" where
  "hasZodCheck schema knd =
     (case unwrapZodSchema schema of
        Inl e \<Rightarrow> Inl e
      | Inr unwrapped \<Rightarrow>
          (case zod_def unwrapped of
             None \<Rightarrow> Inr False
           | Some d \<Rightarrow>
               (case checks d of
                  Some cs \<Rightarrow> Inr (list_ex (\<lambda>c. check_kind c = Some knd) cs)
                | None \<Rightarrow> Inr (format d = Some knd \<or> def_type d = Some knd))))"

definition getEnumValues :: "znode \<Rightarrow> js_error + string list option" where
  "getEnumValues schema =
     (case unwrapZodSchema schema of
        Inl e \<Rightarrow> Inl e
      | Inr unwrapped \<Rightarrow>
          (case zod_def unwrapped of
             None \<Rightarrow> Inr None
           | Some d \<Rightarrow>
               if def_type d = Some ''enum'' then
                 (case entries d of
                    Some es \<Rightarrow> Inr (Some (map snd es))
                  | None \<Rightarrow> Inr (enum_values d))
               else Inr None))"

definition getZodMeta :: "znode \<Rightarrow> jsobj option" where
  "getZodMeta schema = node_meta schema"

record NumericBounds =
  bounds_min :: jsval
  bounds_max :: jsval

definition MAX_SAFE_INTEGER :: real where
  "MAX_SAFE_INTEGER = 9007199254740991"

text \<open>One round of the loop over \<^verbatim>\<open>def.checks\<close>: two \<^verbatim>\<open>if\<close> statements in sequence.\<close>

definition bounds_step :: "zcheck \<Rightarrow> NumericBounds \<Rightarrow> NumericBounds" where
  "bounds_step c r =
     (let r1 = (if check_kind c = Some ''min'' \<and> strict_equal (bounds_min r) JUndefined
                then r\<lparr>bounds_min := check_value c\<rparr> else r)
      in if check_kind c = Some ''max'' \<and> strict_equal (bounds_max r1) JUndefined
         then r1\<lparr>bounds_max := check_value c\<rparr> else r1)"

definition getNumericBounds :: "znode \<Rightarrow> js_error + NumericBounds" where
  "getNumericBounds schema =
     (case unwrapZodSchema schema of
        Inl e \<Rightarrow> Inl e
      | Inr unwrapped \<Rightarrow>
          (let r0 = \<lparr>bounds_min = JUndefined, bounds_max = JUndefined\<rparr>;
               r1 = (if typeof (minValue unwrapped) = ''number''
                        \<and> \<not> strict_equal (minValue unwrapped) (JNum (- MAX_SAFE_INTEGER))
                     then r0\<lparr>bounds_min := minValue unwrapped\<rparr> else r0);
               r2 = (if typeof (maxValue unwrapped) = ''number''
                        \<and> \<not> strict_equal (maxValue unwrapped) (JNum MAX_SAFE_INTEGER)
                     then r1\<lparr>bounds_max := maxValue unwrapped\<rparr> else r1)
           in case zod_def unwrapped of
                None \<Rightarrow> Inr r2
              | Some d \<Rightarrow>
                  (case checks d of
                     None \<Rightarrow> Inr r2
                   | Some cs \<Rightarrow> Inr (fold bounds_step cs r2))))"

section \<open>inference.ts: type defaults\<close>

definition STRING_FIELD_DEFAULTS :: jsobj where
  "STRING_FIELD_DEFAULTS =
     [(''sortable'', JStr ''both''), (''filterable'', JStr ''search''),
      (''searchable'', JBool True), (''groupable'', JBool False),
      (''editable'', JBool True), (''visible'', JBool True)]"

definition NUMBER_FIELD_DEFAULTS :: jsobj where
  "NUMBER_FIELD_DEFAULTS =
     [(''sortable'', JStr ''both''), (''filterable'', JStr ''range''),
      (''searchable'', JBool False), (''groupable'', JBool False),
      (''editable'', JBool True), (''visible'', JBool True),
      (''aggregatable'', JArr [JStr ''sum'', JStr ''avg'', JStr ''min'', JStr ''max''])]"

definition BOOLEAN_FIELD_DEFAULTS :: jsobj where
  "BOOLEAN_FIELD_DEFAULTS =
     [(''sortable'', JStr ''both''), (''filterable'', JStr ''boolean''),
      (''searchable'', JBool False), (''groupable'', JBool True),
      (''editable'', JBool True), (''visible'', JBool True)]"

definition ENUM_FIELD_DEFAULTS :: jsobj where
  "ENUM_FIELD_DEFAULTS =
     [(''sortable'', JStr ''both''), (''filterable'', JStr ''select''),
      (''searchable'', JBool False), (''groupable'', JBool True),
      (''editable'', JBool True), (''visible'', JBool True)]"

definition DATE_FIELD_DEFAULTS :: jsobj where
  "DATE_FIELD_DEFAULTS =
     [(''sortable'', JStr ''both''), (''filterable'', JStr ''range''),
      (''searchable'', JBool False), (''groupable'', JBool False),
      (''editable'', JBool True), (''visible'', JBool True)]"

definition ARRAY_FIELD_DEFAULTS :: jsobj where
  "ARRAY_FIELD_DEFAULTS =
     [(''sortable'', JBool False), (''filterable'', JStr ''contains''),
      (''searchable'', JBool False), (''groupable'', JBool False),
      (''editable'', JBool True), (''visible'', JBool True)]"

definition OBJECT_FIELD_DEFAULTS :: jsobj where
  "OBJECT_FIELD_DEFAULTS =
     [(''sortable'', JBool False), (''filterable'', JBool False),
      (''searchable'', JBool False), (''groupable'', JBool False),
      (''editable'', JBool True), (''visible'', JBool True),
      (''detailOnly'', JBool True)]"

definition UNKNOWN_FIELD_DEFAULTS :: jsobj where
  "UNKNOWN_FIELD_DEFAULTS =
     [(''sortable'', JBool False), (''filterable'', JBool False),
      (''searchable'', JBool False), (''groupable'', JBool False),
      (''editable'', JBool False), (''visible'', JBool True)]"

definition getTypeDefaults :: "string \<Rightarrow> jsobj" where
  "getTypeDefaults zodType =
     (if zodType = ''string'' then spread STRING_FIELD_DEFAULTS []
      else if zodType \<in> set [''number'', ''int'', ''float'', ''bigint'']
        then spread NUMBER_FIELD_DEFAULTS []
      else if zodType = ''boolean'' then spread BOOLEAN_FIELD_DEFAULTS []
      else if zodType \<in> set [''enum'', ''nativeEnum''] then spread ENUM_FIELD_DEFAULTS []
      else if zodType = ''date'' then spread DATE_FIELD_DEFAULTS []
      else if zodType \<in> set [''array'', ''set'', ''tuple''] then spread ARRAY_FIELD_DEFAULTS []
      else if zodType \<in> set [''object'', ''record'', ''map''] then spread OBJECT_FIELD_DEFAULTS []
      else spread UNKNOWN_FIELD_DEFAULTS [])"

text \<open>The case labels of \<^verbatim>\<open>getTypeDefaults\<close>: the type tags it recognizes.\<close>

definition known_type_tags :: "string list" where
  "known_type_tags =
     [''string'', ''number'', ''int'', ''float'', ''bigint'', ''boolean'', ''enum'',
      ''nativeEnum'', ''date'', ''array'', ''set'', ''tuple'', ''object'', ''record'', ''map'']"

section \<open>inference.ts: refinement by validations\<close>

text \<open>The body of the loop over the checks of a string definition.\<close>

definition check_step :: "zcheck \<Rightarrow> jsobj \<Rightarrow> jsobj" where
  "check_step c refined =
     (let k = check_kind c;
          r1 = (if k = Some ''email''
                then assign refined [(''editWidget'', JStr ''email''), (''filterable'', JStr ''search'')]
                else refined);
          r2 = (if k = Some ''url'' \<or> k = Some ''uri''
                then assign r1 [(''editWidget'', JStr ''url''), (''searchable'', JBool False),
                                (''filterable'', JStr ''exact'')]
                else r1)
      in if k = Some ''uuid'' \<or> k = Some ''ulid'' \<or> k = Some ''cuid''
         then assign r2 [(''editable'', JBool False), (''filterable'', JStr ''exact''),
                         (''searchable'', JBool False)]
         else r2)"

definition refine_string :: "zdef \<Rightarrow> jsobj \<Rightarrow> jsobj" where
  "refine_string d refined =
     (let r1 = (case checks d of None \<Rightarrow> refined | Some cs \<Rightarrow> fold check_step cs refined);
          r2 = (if format d = Some ''email'' then assign r1 [(''editWidget'', JStr ''email'')]
                else r1);
          r3 = (if format d = Some ''uri'' \<or> format d = Some ''url''
                then assign r2 [(''editWidget'', JStr ''url''), (''searchable'', JBool False)]
                else r2)
      in if format d = Some ''uuid''
         then assign r3 [(''editable'', JBool False), (''filterable'', JStr ''exact''),
                         (''searchable'', JBool False)]
         else r3)"

definition refineByValidations :: "znode \<Rightarrow> jsobj \<Rightarrow> js_error + jsobj" where
  "refineByValidations schema defaults =
     (case unwrapZodSchema schema of
        Inl e \<Rightarrow> Inl e
      | Inr unwrapped \<Rightarrow>
          (case zod_def unwrapped of
             None \<Rightarrow> Inr defaults
           | Some d \<Rightarrow>
               (let refined = spread defaults [];
                    r1 = (if def_type d = Some ''string'' then refine_string d refined
                          else refined)
                in if def_type d = Some ''boolean'' \<and> has_defaultValue d
                   then Inr (assign r1 [(''editWidget'', JStr ''switch'')])
                   else Inr r1)))"

section \<open>inference.ts: refinement by field name\<close>

text \<open>
  The ten blocks of \<^verbatim>\<open>refineByFieldName\<close>, one function for the assignments of each, in
  the order of the source.
\<close>

definition id_patch :: "string \<Rightarrow> jsobj \<Rightarrow> jsobj" where
  "id_patch key refined =
     assign refined
       [(''editable'', JBool False),
        (''visible'', if key = ''id'' then JBool False else obj_get ''visible'' refined),
        (''filterable'', JStr ''exact''),
        (''searchable'', JBool False)]"

definition created_patch :: "jsobj \<Rightarrow> jsobj" where
  "created_patch refined =
     assign refined
       [(''editable'', JBool False), (''sortable'', JStr ''both''),
        (''filterable'', JStr ''range'')]"

definition updated_patch :: "jsobj \<Rightarrow> jsobj" where
  "updated_patch refined =
     assign refined
       [(''editable'', JBool False), (''visible'', JBool False), (''sortable'', JStr ''both'')]"

definition deleted_patch :: "jsobj \<Rightarrow> jsobj" where
  "deleted_patch refined =
     assign refined [(''editable'', JBool False), (''visible'', JBool False)]"

definition secret_patch :: "jsobj \<Rightarrow> jsobj" where
  "secret_patch refined =
     assign refined
       [(''readable'', JBool False), (''searchable'', JBool False), (''sortable'', JBool False),
        (''filterable'', JBool False), (''visible'', JBool False)]"

definition email_patch :: "jsobj \<Rightarrow> jsobj" where
  "email_patch refined =
     assign refined
       [(''editWidget'', coalesce (obj_get ''editWidget'' refined) (JStr ''email'')),
        (''filterable'', JStr ''search''),
        (''searchable'', JBool True)]"

definition name_patch :: "jsobj \<Rightarrow> jsobj" where
  "name_patch refined =
     assign refined
       [(''searchable'', JBool True), (''summaryField'', JBool True),
        (''sortable'', JStr ''both'')]"

definition description_patch :: "jsobj \<Rightarrow> jsobj" where
  "description_patch refined =
     assign refined
       [(''editWidget'', coalesce (obj_get ''editWidget'' refined) (JStr ''textarea'')),
        (''truncate'', coalesce (obj_get ''truncate'' refined) (JNum 100)),
        (''tooltip'', JBool True),
        (''sortable'', JBool False)]"

definition image_patch :: "jsobj \<Rightarrow> jsobj" where
  "image_patch refined =
     assign refined
       [(''sortable'', JBool False), (''filterable'', JBool False),
        (''searchable'', JBool False)]"

definition status_patch :: "jsobj \<Rightarrow> jsobj" where
  "status_patch refined =
     assign refined [(''groupable'', JBool True), (''filterable'', JStr ''select'')]"

text \<open>A block \<^verbatim>\<open>if (c) { assignments }\<close> on the record.\<close>

definition apply_if :: "bool \<Rightarrow> (jsobj \<Rightarrow> jsobj) \<Rightarrow> jsobj \<Rightarrow> jsobj" where
  "apply_if c patch refined = (if c then patch refined else refined)"

definition refineByFieldName :: "string \<Rightarrow> jsobj \<Rightarrow> jsobj" where
  "refineByFieldName key defaults =
     (let r0 = spread defaults [];
          r1 = apply_if (ID_PATTERNS key \<or> ID_SUFFIX_PATTERNS key) (id_patch key) r0;
          r2 = apply_if (CREATED_PATTERNS key) created_patch r1;
          r3 = apply_if (UPDATED_PATTERNS key) updated_patch r2;
          r4 = apply_if (DELETED_PATTERNS key) deleted_patch r3;
          r5 = apply_if (SECRET_PATTERNS key) secret_patch r4;
          r6 = apply_if (EMAIL_PATTERNS key) email_patch r5;
          r7 = apply_if (NAME_PATTERNS key) name_patch r6;
          r8 = apply_if (DESCRIPTION_PATTERNS key) description_patch r7;
          r9 = apply_if (IMAGE_PATTERNS key) image_patch r8
      in apply_if (STATUS_PATTERNS key) status_patch r9)"

text \<open>The conditions of the ten blocks, in the order of the source.\<close>

definition name_heuristics :: "(string \<Rightarrow> bool) list" where
  "name_heuristics =
     [\<lambda>key. ID_PATTERNS key \<or> ID_SUFFIX_PATTERNS key, CREATED_PATTERNS, UPDATED_PATTERNS,
      DELETED_PATTERNS, SECRET_PATTERNS, EMAIL_PATTERNS, NAME_PATTERNS, DESCRIPTION_PATTERNS,
      IMAGE_PATTERNS, STATUS_PATTERNS]"

section \<open>inference.ts: metadata and the entry point\<close>

definition affordanceKeys :: "string list" where
  "affordanceKeys =
     [''sortable'', ''filterable'', ''searchable'', ''groupable'', ''aggregatable'',
      ''readable'', ''editable'', ''inlineEditable'', ''requiredOnCreate'', ''requiredOnUpdate'',
      ''immutableAfterCreate'', ''visible'', ''hidden'', ''detailOnly'', ''summaryField'',
      ''columnWidth'', ''minWidth'', ''maxWidth'', ''resizable'', ''pinned'', ''order'',
      ''title'', ''description'', ''displayFormat'', ''badge'', ''copyable'', ''truncate'',
      ''tooltip'', ''editWidget'', ''editPlaceholder'', ''editHelp'']"

definition extractAffordancesFromMeta :: "jsobj \<Rightarrow> jsobj" where
  "extractAffordancesFromMeta m =
     (let r1 = fold (\<lambda>key result. if obj_has key m then obj_set key (obj_get key m) result
                                   else result) affordanceKeys [];
          r2 = (if truthy (obj_get ''affordances'' m)
                   \<and> typeof (obj_get ''affordances'' m) = ''object''
                then assign r1 (own_entries (obj_get ''affordances'' m)) else r1);
          r3 = (if truthy (obj_get ''title'' m) \<and> \<not> truthy (obj_get ''title'' r2)
                then obj_set ''title'' (obj_get ''title'' m) r2 else r2)
      in if truthy (obj_get ''description'' m) \<and> \<not> truthy (obj_get ''description'' r3)
         then obj_set ''description'' (obj_get ''description'' m) r3 else r3)"

definition inferFieldAffordances :: "string \<Rightarrow> znode \<Rightarrow> js_error + jsobj" where
  "inferFieldAffordances key schema =
     (case getZodBaseType schema of
        Inl e \<Rightarrow> Inl e
      | Inr baseType \<Rightarrow>
          (case refineByValidations schema (getTypeDefaults baseType) of
             Inl e \<Rightarrow> Inl e
           | Inr validated \<Rightarrow>
               (let named = refineByFieldName key validated;
                    a = (case getZodMeta schema of
                           None \<Rightarrow> named
                         | Some m \<Rightarrow> spread named (extractAffordancesFromMeta m))
                in if \<not> truthy (obj_get ''title'' a)
                   then Inr (obj_set ''title'' (JStr (humanizeFieldName key)) a)
                   else Inr a)))"

text \<open>Schemas used as examples: \<^verbatim>\<open>z.string()\<close>, and a node with no definition.\<close>

definition plain_def :: "string \<Rightarrow> zdef" where
  "plain_def t = ZDef (Some t) None None None None None False"

definition z_string :: znode where
  "z_string = ZNode (Some (plain_def ''string'')) JUndefined JUndefined None"

definition z_enum :: "string list \<Rightarrow> znode" where
  "z_enum members =
     ZNode (Some (ZDef (Some ''enum'') None None None (Some (map (\<lambda>v. (v, v)) members))
        None False)) JUndefined JUndefined None"

definition z_optional :: "znode \<Rightarrow> znode" where
  "z_optional n =
     ZNode (Some (ZDef (Some ''optional'') (Some n) None None None None False))
       JUndefined JUndefined None"


section \<open>collection.ts: resolving a collection\<close>

definition DEFAULT_PAGINATION :: jsobj where
  "DEFAULT_PAGINATION =
     [(''defaultPageSize'', JNum 25),
      (''pageSizeOptions'', JArr [JNum 10, JNum 25, JNum 50, JNum 100]),
      (''style'', JStr ''pages''),
      (''serverSide'', JBool False)]"

definition DEFAULT_SEARCH :: jsobj where
  "DEFAULT_SEARCH =
     [(''debounce'', JNum 300), (''minChars'', JNum 1), (''highlight'', JBool False),
      (''placeholder'', JStr ''Search...'')]"

definition DEFAULT_COLLECTION_AFFORDANCES :: jsobj where
  "DEFAULT_COLLECTION_AFFORDANCES =
     [(''create'', JBool True), (''read'', JBool True), (''update'', JBool True),
      (''delete'', JBool True), (''bulkDelete'', JBool False), (''bulkEdit'', JBool False),
      (''search'', JBool True),
      (''pagination'', JObj
         [(''defaultPageSize'', JNum 25),
          (''pageSizeOptions'', JArr [JNum 10, JNum 25, JNum 50, JNum 100]),
          (''style'', JStr ''pages''),
          (''serverSide'', JBool False)]),
      (''multiSort'', JBool True), (''filterPanel'', JBool True),
      (''selectable'', JStr ''multi''), (''columnVisibility'', JBool True),
      (''columnOrder'', JBool True), (''columnResize'', JBool True),
      (''refresh'', JBool True), (''defaultView'', JStr ''table''),
      (''views'', JArr [JStr ''table''])]"

text \<open>
  \<^verbatim>\<open>resolveCollectionAffordances(explicit)\<close>. The argument is the \<^verbatim>\<open>affordances\<close> value of
  the config, \<^verbatim>\<open>undefined\<close> when there is none.
\<close>

definition resolveCollectionAffordances :: "jsval \<Rightarrow> jsobj" where
  "resolveCollectionAffordances explicit =
     (let merged = spread DEFAULT_COLLECTION_AFFORDANCES (own_entries explicit);
          pg = obj_get ''pagination'' merged;
          m1 = (if strict_equal pg (JBool True)
                then obj_set ''pagination'' (JObj (spread DEFAULT_PAGINATION [])) merged
                else if truthy pg \<and> typeof pg = ''object''
                then obj_set ''pagination''
                       (JObj (spread DEFAULT_PAGINATION (own_entries pg))) merged
                else merged);
          sr = obj_get ''search'' m1
      in if strict_equal sr (JBool True)
         then obj_set ''search'' (JObj (spread DEFAULT_SEARCH [])) m1
         else if truthy sr \<and> typeof sr = ''object''
         then obj_set ''search'' (JObj (spread DEFAULT_SEARCH (own_entries sr))) m1
         else m1)"

text \<open>
  A \<^verbatim>\<open>z.object\<close> schema is read only through \<^verbatim>\<open>schema.shape\<close>: the fields and their
  nodes, in declaration order.
\<close>

type_synonym zod_shape = "(string \<times> znode) list"

text \<open>
  The config: \<^verbatim>\<open>affordances\<close> and \<^verbatim>\<open>fields\<close> as given (\<^verbatim>\<open>undefined\<close> when absent),
  \<^verbatim>\<open>operations\<close>, \<^verbatim>\<open>idField\<close> and \<^verbatim>\<open>labelField\<close> with \<open>None\<close> for an absent one.
\<close>

record CollectionConfig =
  cfg_affordances :: jsval
  cfg_fields :: jsval
  cfg_operations :: "jsobj list option"
  cfg_idField :: "string option"
  cfg_labelField :: "string option"

record CollectionDefinition =
  schema_shape :: zod_shape
  affordances :: jsobj
  fieldAffordances :: "(string \<times> jsobj) list"
  operations :: "jsobj list"
  idField :: string
  labelField :: string

text \<open>\<^verbatim>\<open>explicit?.[key] ?? {}\<close>, as the properties the spread then copies.\<close>

definition explicit_overrides :: "jsval \<Rightarrow> string \<Rightarrow> jsobj" where
  "explicit_overrides explicit key =
     (if nullish explicit then []
      else own_entries (coalesce (obj_get key (own_entries explicit)) (JObj [])))"

text \<open>The body of the loop of \<^verbatim>\<open>resolveAllFieldAffordances\<close>, for one field.\<close>

definition resolveFieldAffordance :: "jsval \<Rightarrow> string \<Rightarrow> znode \<Rightarrow> js_error + jsobj" where
  "resolveFieldAffordance explicit key fieldSchema =
     (case inferFieldAffordances key fieldSchema of
        Inl e \<Rightarrow> Inl e
      | Inr inferred \<Rightarrow>
          (let merged = spread inferred (explicit_overrides explicit key)
           in case getZodBaseType fieldSchema of
                Inl e \<Rightarrow> Inl e
              | Inr zodType \<Rightarrow>
                  Inr (assign (spread merged [])
                    [(''title'', coalesce (obj_get ''title'' merged) (JStr (humanizeFieldName key))),
                     (''zodType'', JStr zodType)])))"

text \<open>
  The loop of \<^verbatim>\<open>resolveAllFieldAffordances\<close> over \<^verbatim>\<open>Object.entries(shape)\<close>. The assignment
  \<^verbatim>\<open>result[key] = { ... }\<close> on the object literal \<^verbatim>\<open>result\<close> adds or replaces the own
  property \<open>key\<close>, except for the key \<^verbatim>\<open>__proto__\<close>: there it goes through the setter of
  \<^verbatim>\<open>Object.prototype\<close>, which sets the prototype of \<^verbatim>\<open>result\<close> and adds no own property, so
  that the field is not among the entries of the result.
\<close>

fun resolveAllFields ::
  "jsval \<Rightarrow> zod_shape \<Rightarrow> (string \<times> jsobj) list \<Rightarrow> js_error + (string \<times> jsobj) list" where
  "resolveAllFields explicit [] result = Inr result"
| "resolveAllFields explicit ((key, fieldSchema) # rest) result =
     (case resolveFieldAffordance explicit key fieldSchema of
        Inl e \<Rightarrow> Inl e
      | Inr fa \<Rightarrow>
          resolveAllFields explicit rest
            (if key = ''__proto__'' then result else obj_set key fa result))"

definition resolveAllFieldAffordances ::
  "zod_shape \<Rightarrow> jsval \<Rightarrow> js_error + (string \<times> jsobj) list" where
  "resolveAllFieldAffordances shape explicit = resolveAllFields explicit shape []"

text \<open>\<^verbatim>\<open>/[iI]d$/.test(key) || key.endsWith('_id')\<close>.\<close>

definition id_like_key :: "string \<Rightarrow> bool" where
  "id_like_key key = (endsWith key ''id'' \<or> endsWith key ''Id'' \<or> endsWith key ''_id'')"

definition detectIdField :: "zod_shape \<Rightarrow> string" where
  "detectIdField shape =
     (if ''id'' \<in> set (map fst shape) then ''id''
      else if ''_id'' \<in> set (map fst shape) then ''_id''
      else if ''uuid'' \<in> set (map fst shape) then ''uuid''
      else if ''key'' \<in> set (map fst shape) then ''key''
      else (case find id_like_key (map fst shape) of
              Some key \<Rightarrow> key
            | None \<Rightarrow> (case map fst shape of [] \<Rightarrow> ''id'' | key # _ \<Rightarrow> key)))"

definition labelNames :: "string list" where
  "labelNames = [''name'', ''title'', ''label'', ''displayName'', ''display_name'', ''username'']"

definition detectLabelField :: "(string \<times> jsobj) list \<Rightarrow> string" where
  "detectLabelField fas =
     (case find (\<lambda>(key, fa). truthy (obj_get ''summaryField'' fa)) fas of
        Some (key, fa) \<Rightarrow> key
      | None \<Rightarrow>
          (case find (\<lambda>n. n \<in> set (map fst fas)) labelNames of
             Some n \<Rightarrow> n
           | None \<Rightarrow>
               (case find (\<lambda>(key, fa). strict_equal (obj_get ''zodType'' fa) (JStr ''string'')
                                        \<and> \<not> strict_equal (obj_get ''editable'' fa) (JBool False)) fas of
                  Some (key, fa) \<Rightarrow> key
                | None \<Rightarrow> (case map fst fas of [] \<Rightarrow> [] | key # _ \<Rightarrow> key))))"

definition defineCollection ::
  "zod_shape \<Rightarrow> CollectionConfig option \<Rightarrow> js_error + CollectionDefinition" where
  "defineCollection shape config =
     (let affs = resolveCollectionAffordances
                   (case config of None \<Rightarrow> JUndefined | Some c \<Rightarrow> cfg_affordances c)
      in case resolveAllFieldAffordances shape
                (case config of None \<Rightarrow> JUndefined | Some c \<Rightarrow> cfg_fields c) of
           Inl e \<Rightarrow> Inl e
         | Inr fas \<Rightarrow>
             Inr \<lparr>schema_shape = shape,
                  affordances = affs,
                  fieldAffordances = fas,
                  operations = (case Option.bind config cfg_operations of
                                  None \<Rightarrow> [] | Some ops \<Rightarrow> ops),
                  idField = (case Option.bind config cfg_idField of
                               None \<Rightarrow> detectIdField shape | Some f \<Rightarrow> f),
                  labelField = (case Option.bind config cfg_labelField of
                                  None \<Rightarrow> detectLabelField fas | Some f \<Rightarrow> f)\<rparr>)"

text \<open>\<^verbatim>\<open>getFilterableFields()\<close>: the fields whose \<^verbatim>\<open>filterable !== false\<close>.\<close>

definition getFilterableFields :: "CollectionDefinition \<Rightarrow> (string \<times> jsobj) list" where
  "getFilterableFields c =
     filter (\<lambda>(key, fa). \<not> strict_equal (obj_get ''filterable'' fa) (JBool False))
       (fieldAffordances c)"

section \<open>generators.ts: the filter panel\<close>

record FilterFieldConfig =
  filter_name :: string
  filter_label :: jsval
  filterType :: string
  filter_options :: "(string \<times> string) list option"
  filter_bounds :: "NumericBounds option"
  filter_zodType :: jsval

text \<open>\<^verbatim>\<open>v.charAt(0).toUpperCase() + v.slice(1)\<close>; an option is the pair of its label and value.\<close>

fun capitalize :: "string \<Rightarrow> string" where
  "capitalize [] = []"
| "capitalize (c # cs) = upper_char c # cs"

definition enum_options :: "string list \<Rightarrow> (string \<times> string) list" where
  "enum_options vs = map (\<lambda>v. (capitalize v, v)) vs"

text \<open>The body of the loop of \<^verbatim>\<open>toFilterConfig\<close>; \<open>None\<close> is the \<^verbatim>\<open>continue\<close>.\<close>

definition filterFieldConfig ::
  "CollectionDefinition \<Rightarrow> string \<Rightarrow> jsobj \<Rightarrow> js_error + FilterFieldConfig option" where
  "filterFieldConfig c key affordance =
     (case map_of (schema_shape c) key of
        None \<Rightarrow> Inr None
      | Some fieldSchema \<Rightarrow>
          (let ft = (case obj_get ''filterable'' affordance of
                       JStr s \<Rightarrow> s | _ \<Rightarrow> ''search'')
           in case getEnumValues fieldSchema of
                Inl e \<Rightarrow> Inl e
              | Inr enumValues \<Rightarrow>
                  (case (if ft = ''range'' then map_sum id Some (getNumericBounds fieldSchema)
                         else Inr None) of
                     Inl e \<Rightarrow> Inl e
                   | Inr bnds \<Rightarrow>
                       (case map_of (fieldAffordances c) key of
                          None \<Rightarrow> Inl TypeError
                        | Some fa \<Rightarrow>
                            Inr (Some
                              \<lparr>filter_name = key,
                               filter_label = coalesce (obj_get ''title'' affordance) (JStr key),
                               filterType = ft,
                               filter_options =
                                 (case enumValues of
                                    Some vs \<Rightarrow>
                                      if ft = ''select'' \<or> ft = ''multiSelect''
                                      then Some (enum_options vs) else None
                                  | None \<Rightarrow> None),
                               filter_bounds = bnds,
                               filter_zodType = obj_get ''zodType'' fa\<rparr>)))))"

fun filterConfigs ::
  "CollectionDefinition \<Rightarrow> (string \<times> jsobj) list \<Rightarrow> js_error + FilterFieldConfig list" where
  "filterConfigs c [] = Inr []"
| "filterConfigs c ((key, affordance) # rest) =
     (case filterFieldConfig c key affordance of
        Inl e \<Rightarrow> Inl e
      | Inr entry \<Rightarrow>
          (case filterConfigs c rest of
             Inl e \<Rightarrow> Inl e
           | Inr others \<Rightarrow>
               Inr ((case entry of None \<Rightarrow> [] | Some f \<Rightarrow> [f]) @ others)))"

definition toFilterConfig :: "CollectionDefinition \<Rightarrow> js_error + FilterFieldConfig list" where
  "toFilterConfig c = filterConfigs c (getFilterableFields c)"

section \<open>store.ts: the collection store\<close>

record SortingState =
  sort_id :: jsval
  desc :: bool

record ColumnFilter =
  filter_id :: string
  filter_value :: jsval

record PaginationState =
  pageIndex :: jsval
  pageSize :: jsval

record 'a CollectionState =
  items :: "'a list"
  totalCount :: jsval
  loading :: bool
  error :: "string option"
  sorting :: "SortingState list"
  columnFilters :: "ColumnFilter list"
  globalFilter :: string
  pagination :: PaginationState
  rowSelection :: "(string \<times> bool) list"
  columnVisibility :: "(string \<times> bool) list"
  columnOrder :: "string list"
  grouping :: "string list"

text \<open>
  The actions of \<^verbatim>\<open>createCollectionStore\<close>, each \<^verbatim>\<open>(state, args) => newState\<close>. Only
  \<^verbatim>\<open>reset\<close> reads the closure: it restores \<^verbatim>\<open>initialState.sorting\<close>, passed here as its
  first argument.
\<close>

definition setItems :: "'a CollectionState \<Rightarrow> 'a list \<Rightarrow> jsval \<Rightarrow> 'a CollectionState" where
  "setItems state its tot =
     state\<lparr>items := its, totalCount := coalesce tot (JNum (real (length its)))\<rparr>"

definition setSorting :: "'a CollectionState \<Rightarrow> SortingState list \<Rightarrow> 'a CollectionState" where
  "setSorting state srt = state\<lparr>sorting := srt\<rparr>"

definition setColumnFilters :: "'a CollectionState \<Rightarrow> ColumnFilter list \<Rightarrow> 'a CollectionState" where
  "setColumnFilters state filters =
     state\<lparr>columnFilters := filters, pagination := (pagination state)\<lparr>pageIndex := JNum 0\<rparr>\<rparr>"

definition setGlobalFilter :: "'a CollectionState \<Rightarrow> string \<Rightarrow> 'a CollectionState" where
  "setGlobalFilter state flt =
     state\<lparr>globalFilter := flt, pagination := (pagination state)\<lparr>pageIndex := JNum 0\<rparr>\<rparr>"

definition setPagination :: "'a CollectionState \<Rightarrow> PaginationState \<Rightarrow> 'a CollectionState" where
  "setPagination state pg = state\<lparr>pagination := pg\<rparr>"

definition setRowSelection :: "'a CollectionState \<Rightarrow> (string \<times> bool) list \<Rightarrow> 'a CollectionState" where
  "setRowSelection state selection = state\<lparr>rowSelection := selection\<rparr>"

definition setColumnVisibility :: "'a CollectionState \<Rightarrow> (string \<times> bool) list \<Rightarrow> 'a CollectionState" where
  "setColumnVisibility state visibility = state\<lparr>columnVisibility := visibility\<rparr>"

definition setColumnOrder :: "'a CollectionState \<Rightarrow> string list \<Rightarrow> 'a CollectionState" where
  "setColumnOrder state ord = state\<lparr>columnOrder := ord\<rparr>"

definition setGrouping :: "'a CollectionState \<Rightarrow> string list \<Rightarrow> 'a CollectionState" where
  "setGrouping state grp = state\<lparr>grouping := grp\<rparr>"

definition setLoading :: "'a CollectionState \<Rightarrow> bool \<Rightarrow> 'a CollectionState" where
  "setLoading state l = state\<lparr>loading := l\<rparr>"

definition setError :: "'a CollectionState \<Rightarrow> string option \<Rightarrow> 'a CollectionState" where
  "setError state e = state\<lparr>error := e\<rparr>"

definition clearSelection :: "'a CollectionState \<Rightarrow> 'a CollectionState" where
  "clearSelection state = state\<lparr>rowSelection := []\<rparr>"

definition selectAll :: "'a CollectionState \<Rightarrow> 'a CollectionState" where
  "selectAll state =
     state\<lparr>rowSelection :=
       fold (\<lambda>i selection. obj_set (show_nat i) True selection) [0 ..< length (items state)] []\<rparr>"

definition reset :: "SortingState list \<Rightarrow> 'a CollectionState \<Rightarrow> 'a CollectionState" where
  "reset initial_sorting state =
     state\<lparr>sorting := initial_sorting, columnFilters := [], globalFilter := [],
       pagination := \<lparr>pageIndex = JNum 0, pageSize = pageSize (pagination state)\<rparr>,
       rowSelection := [], grouping := []\<rparr>"

text \<open>A state to run the actions on: page 3 of a listing with 10 rows per page.\<close>

definition example_state :: "nat CollectionState" where
  "example_state =
     \<lparr>items = [1, 2, 3], totalCount = JNum 42, loading = False, error = None,
      sorting = [], columnFilters = [], globalFilter = [],
      pagination = \<lparr>pageIndex = JNum 3, pageSize = JNum 10\<rparr>,
      rowSelection = [], columnVisibility = [], columnOrder = [], grouping = []\<rparr>"

subsection \<open>The initial state\<close>

definition buildInitialVisibility :: "CollectionDefinition \<Rightarrow> (string \<times> bool) list" where
  "buildInitialVisibility c =
     fold (\<lambda>(key, fa) visibility.
             if strict_equal (obj_get ''visible'' fa) (JBool False) \<or> truthy (obj_get ''hidden'' fa)
             then obj_set key False visibility else visibility)
       (fieldAffordances c) []"

text \<open>
  \<^verbatim>\<open>(a.order ?? 999) - (b.order ?? 999)\<close>, for \<^verbatim>\<open>order\<close> of its declared type, a number.
  A difference that is not a number compares as equal. \<^verbatim>\<open>Array.prototype.sort\<close> is stable;
  the insertion sort below is the stable sort by that comparison.
\<close>

definition compare_order :: "jsobj \<Rightarrow> jsobj \<Rightarrow> real" where
  "compare_order a b =
     (case (coalesce (obj_get ''order'' a) (JNum 999), coalesce (obj_get ''order'' b) (JNum 999)) of
        (JNum x, JNum y) \<Rightarrow> x - y
      | _ \<Rightarrow> 0)"

fun insert_sorted :: "('a \<Rightarrow> 'a \<Rightarrow> real) \<Rightarrow> 'a \<Rightarrow> 'a list \<Rightarrow> 'a list" where
  "insert_sorted cmp x [] = [x]"
| "insert_sorted cmp x (y # ys) =
     (if cmp x y \<le> 0 then x # y # ys else y # insert_sorted cmp x ys)"

definition stable_sort :: "('a \<Rightarrow> 'a \<Rightarrow> real) \<Rightarrow> 'a list \<Rightarrow> 'a list" where
  "stable_sort cmp xs = foldr (insert_sorted cmp) xs []"

definition buildInitialOrder :: "CollectionDefinition \<Rightarrow> string list" where
  "buildInitialOrder c =
     map fst (stable_sort (\<lambda>a b. compare_order (snd a) (snd b)) (fieldAffordances c))"

text \<open>\<^verbatim>\<open>createCollectionStore(collection).initialState\<close>.\<close>

definition initialState :: "CollectionDefinition \<Rightarrow> 'a CollectionState" where
  "initialState c =
     (let paginationConfig = obj_get ''pagination'' (affordances c);
          defaultPageSize =
            (if truthy paginationConfig \<and> typeof paginationConfig = ''object''
             then coalesce (obj_get ''defaultPageSize'' (own_entries paginationConfig)) (JNum 25)
             else JNum 25);
          defaultSort = obj_get ''defaultSort'' (affordances c)
      in \<lparr>items = [], totalCount = JNum 0, loading = False, error = None,
          sorting =
            (if truthy defaultSort
             then [\<lparr>sort_id = obj_get ''field'' (own_entries defaultSort),
                     desc = strict_equal (obj_get ''direction'' (own_entries defaultSort))
                              (JStr ''desc'')\<rparr>]
             else []),
          columnFilters = [], globalFilter = [],
          pagination = \<lparr>pageIndex = JNum 0, pageSize = defaultPageSize\<rparr>,
          rowSelection = [],
          columnVisibility = buildInitialVisibility c,
          columnOrder = buildInitialOrder c,
          grouping = []\<rparr>)"

section \<open>codegen.ts: the config object of toCode\<close>

definition FIELD_PROP_ORDER :: "string list" where
  "FIELD_PROP_ORDER =
     [''title'', ''description'',
      ''sortable'', ''filterable'', ''searchable'', ''groupable'', ''aggregatable'',
      ''readable'', ''editable'', ''inlineEditable'',
      ''requiredOnCreate'', ''requiredOnUpdate'', ''immutableAfterCreate'',
      ''visible'', ''hidden'', ''detailOnly'', ''summaryField'',
      ''columnWidth'', ''minWidth'', ''maxWidth'', ''resizable'', ''pinned'', ''order'',
      ''displayFormat'', ''badge'', ''copyable'', ''truncate'', ''tooltip'',
      ''editWidget'', ''editPlaceholder'', ''editHelp'']"

definition COMPUTED_PROPS :: "string list" where
  "COMPUTED_PROPS = [''zodType'', ''zodDef'']"

text \<open>
  \<^verbatim>\<open>valueEqual(a, b)\<close>. \<^verbatim>\<open>JSON.stringify\<close> is the engine's and is a parameter here. Two
  arrays or objects that are the same reference pass the first test in the source and
  have the same rendering here, so the outcome is the same.
\<close>

definition valueEqual :: "(jsval \<Rightarrow> 's) \<Rightarrow> jsval \<Rightarrow> jsval \<Rightarrow> bool" where
  "valueEqual stringify a b =
     (if strict_equal a b then True
      else if nullish a \<or> nullish b then strict_equal a b
      else if typeof a \<noteq> typeof b then False
      else if typeof a = ''object'' then stringify a = stringify b
      else False)"

definition filterUndefined :: "jsobj \<Rightarrow> jsobj" where
  "filterUndefined ob =
     fold (\<lambda>(k, v) result. if v \<noteq> JUndefined then obj_set k v result else result) ob []"

definition buildOperationObject :: "jsobj \<Rightarrow> jsobj" where
  "buildOperationObject op =
     (let r0 = assign [] [(''name'', obj_get ''name'' op), (''label'', obj_get ''label'' op),
                          (''scope'', obj_get ''scope'' op)]
      in fold (\<lambda>k result. if obj_get k op \<noteq> JUndefined then obj_set k (obj_get k op) result
                           else result)
           [''icon'', ''variant'', ''confirm'', ''keyboardShortcut''] r0)"

text \<open>Diff mode, for one field: the properties that differ from a fresh inference.\<close>

definition diff_props :: "(jsval \<Rightarrow> 's) \<Rightarrow> string \<Rightarrow> jsobj \<Rightarrow> znode \<Rightarrow> js_error + jsobj" where
  "diff_props stringify key fa fieldSchema =
     (case inferFieldAffordances key fieldSchema of
        Inl e \<Rightarrow> Inl e
      | Inr inferred \<Rightarrow>
          (let inferredTitle = coalesce (obj_get ''title'' inferred) (JStr (humanizeFieldName key))
           in Inr (fold (\<lambda>prop props.
                     let resolved = obj_get prop fa
                     in if resolved = JUndefined then props
                        else if \<not> valueEqual stringify resolved
                                    (if prop = ''title'' then inferredTitle
                                     else obj_get prop inferred)
                        then obj_set prop resolved props
                        else props)
                 FIELD_PROP_ORDER [])))"

text \<open>Full mode, for one field: the two loops of the source.\<close>

definition full_props :: "jsobj \<Rightarrow> jsobj" where
  "full_props fa =
     (let p1 = fold (\<lambda>prop props. if obj_get prop fa \<noteq> JUndefined
                                   then obj_set prop (obj_get prop fa) props else props)
                 FIELD_PROP_ORDER []
      in fold (\<lambda>(prop, v) props.
                 if v \<noteq> JUndefined \<and> prop \<notin> set COMPUTED_PROPS \<and> prop \<notin> set FIELD_PROP_ORDER
                 then obj_set prop v props else props)
           fa p1)"

fun fieldsObject ::
  "(jsval \<Rightarrow> 's) \<Rightarrow> CollectionDefinition \<Rightarrow> bool \<Rightarrow> (string \<times> jsobj) list \<Rightarrow>
   (string \<times> jsobj) list \<Rightarrow> js_error + (string \<times> jsobj) list" where
  "fieldsObject stringify c diffOnly [] result = Inr result"
| "fieldsObject stringify c diffOnly ((key, fa) # rest) result =
     (if diffOnly then
        (case map_of (schema_shape c) key of
           None \<Rightarrow> fieldsObject stringify c diffOnly rest result
         | Some fieldSchema \<Rightarrow>
             (case diff_props stringify key fa fieldSchema of
                Inl e \<Rightarrow> Inl e
              | Inr props \<Rightarrow>
                  fieldsObject stringify c diffOnly rest
                    (if props \<noteq> [] then obj_set key props result else result)))
      else
        (let props = full_props fa
         in fieldsObject stringify c diffOnly rest
              (if props \<noteq> [] then obj_set key props result else result)))"

definition buildFieldsObject ::
  "(jsval \<Rightarrow> 's) \<Rightarrow> CollectionDefinition \<Rightarrow> bool \<Rightarrow> js_error + (string \<times> jsobj) list" where
  "buildFieldsObject stringify c diffOnly =
     fieldsObject stringify c diffOnly (fieldAffordances c) []"

definition buildConfigObject ::
  "(jsval \<Rightarrow> 's) \<Rightarrow> CollectionDefinition \<Rightarrow> bool \<Rightarrow> js_error + jsobj" where
  "buildConfigObject stringify c diffOnly =
     (let c0 = assign [] [(''idField'', JStr (idField c)), (''labelField'', JStr (labelField c))];
          affs = filterUndefined (affordances c);
          c1 = (if affs \<noteq> [] then obj_set ''affordances'' (JObj affs) c0 else c0)
      in case buildFieldsObject stringify c diffOnly of
           Inl e \<Rightarrow> Inl e
         | Inr flds \<Rightarrow>
             (let c2 = (if flds \<noteq> []
                        then obj_set ''fields'' (JObj (map (\<lambda>(k, props). (k, JObj props)) flds)) c1
                        else c1)
              in if operations c \<noteq> []
                 then Inr (obj_set ''operations''
                             (JArr (map (\<lambda>op. JObj (buildOperationObject op)) (operations c))) c2)
                 else Inr c2))"

section \<open>Example inputs\<close>

text \<open>\<^verbatim>\<open>z.number().optional()\<close> with an instance-level minimum of 3 and duplicate checks.\<close>

definition bounded_number :: znode where
  "bounded_number =
     z_optional
       (ZNode (Some (ZDef (Some ''number'') None
           (Some [ZCheck (Some ''min'') (JNum 1), ZCheck (Some ''min'') (JNum 5),
                  ZCheck (Some ''max'') (JNum 9), ZCheck (Some ''max'') (JNum 2)])
           None None None False))
         (JNum 3) JUndefined None)"

text \<open>\<^verbatim>\<open>z.number()\<close> with checks only.\<close>

definition checked_number :: znode where
  "checked_number =
     ZNode (Some (ZDef (Some ''number'') None
         (Some [ZCheck (Some ''int'') JUndefined, ZCheck (Some ''min'') (JNum 1),
                ZCheck (Some ''min'') (JNum 5), ZCheck (Some ''max'') (JNum 9)])
         None None None False))
       JUndefined JUndefined None"


text \<open>
  \<^verbatim>\<open>z.object({ id: z.string(), name: z.string(), notes: z.string() })\<close> with the config
  \<^verbatim>\<open>{ fields: { notes: { hidden: true } } }\<close>.
\<close>

definition contact_shape :: zod_shape where
  "contact_shape = [(''id'', z_string), (''name'', z_string), (''notes'', z_string)]"

definition contact_config :: CollectionConfig where
  "contact_config =
     \<lparr>cfg_affordances = JUndefined,
      cfg_fields = JObj [(''notes'', JObj [(''hidden'', JBool True)])],
      cfg_operations = None, cfg_idField = None, cfg_labelField = None\<rparr>"

text \<open>\<^verbatim>\<open>z.object({ status: z.enum(['draft', 'active', 'archived']) })\<close>.\<close>

definition status_shape :: zod_shape where
  "status_shape = [(''status'', z_enum [''draft'', ''active'', ''archived''])]"


text \<open>\<^verbatim>\<open>z.object({ rank: z.number().meta({ order: NaN }) })\<close>.\<close>

definition nan_order_shape :: zod_shape where
  "nan_order_shape =
     [(''rank'', ZNode (Some (plain_def ''number'')) JUndefined JUndefined
                   (Some [(''order'', JNaN)]))]"


section \<open>Properties of the object operations\<close>


lemma map_of_obj_set: "map_of (obj_set k v ps) = (map_of ps)(k \<mapsto> v)"
  by (induction ps) auto

lemma obj_get_obj_set: "obj_get k' (obj_set k v ps) = (if k' = k then v else obj_get k' ps)"
  by (simp add: obj_get_def map_of_obj_set)

lemma keys_obj_set: "fst ` set (obj_set k v ps) = insert k (fst ` set ps)"
proof -
  have "dom (map_of (obj_set k v ps)) = insert k (dom (map_of ps))"
    by (simp add: map_of_obj_set)
  then show ?thesis by (simp add: dom_map_of_conv_image_fst)
qed

lemma obj_set_fresh: "k \<notin> fst ` set ps \<Longrightarrow> obj_set k v ps = ps @ [(k, v)]"
  by (induction ps) auto

lemma distinct_obj_set: "distinct (map fst ps) \<Longrightarrow> distinct (map fst (obj_set k v ps))"
  by (induction ps) (auto simp: keys_obj_set)

lemma assign_Nil: "assign t [] = t"
  by (simp add: assign_def)

lemma assign_Cons: "assign t ((k, v) # s) = assign (obj_set k v t) s"
  by (simp add: assign_def)

lemma assign_fresh: "distinct (map fst (t @ s)) \<Longrightarrow> assign t s = t @ s"
proof (induction s arbitrary: t)
  case Nil
  then show ?case by (simp add: assign_Nil)
next
  case (Cons p s)
  obtain k v where p: "p = (k, v)" by (cases p)
  from Cons.prems p have fresh: "k \<notin> fst ` set t" by auto
  from Cons.prems p have "distinct (map fst ((t @ [(k, v)]) @ s))" by auto
  then have "assign (t @ [(k, v)]) s = (t @ [(k, v)]) @ s" by (rule Cons.IH)
  with fresh p show ?case by (simp add: assign_Cons obj_set_fresh)
qed

lemma spread_empty: "distinct (map fst a) \<Longrightarrow> spread a [] = a"
  using assign_fresh [of "[]" a] by (simp add: spread_def assign_Nil)

lemma map_of_assign: "map_of (assign t s) = map_of t ++ map_of (rev s)"
proof (induction s arbitrary: t)
  case Nil
  then show ?case by (simp add: assign_Nil)
next
  case (Cons p s)
  obtain k v where p: "p = (k, v)" by (cases p)
  show ?case
    by (simp add: p assign_Cons Cons.IH map_of_obj_set map_add_def fun_eq_iff split: option.splits)
qed

lemma distinct_assign: "distinct (map fst t) \<Longrightarrow> distinct (map fst (assign t s))"
  by (induction s arbitrary: t) (auto simp: assign_Nil assign_Cons distinct_obj_set)

lemma obj_get_Cons: "obj_get k ((k', v) # ps) = (if k = k' then v else obj_get k ps)"
  by (simp add: obj_get_def)

lemma obj_get_assign:
  "distinct (map fst s) \<Longrightarrow>
   obj_get k (assign t s) = (if k \<in> fst ` set s then obj_get k s else obj_get k t)"
proof (induction s arbitrary: t)
  case Nil
  then show ?case by (simp add: assign_Nil)
next
  case (Cons p s)
  obtain k' v where p: "p = (k', v)" by (cases p)
  from Cons.prems p have d: "distinct (map fst s)" and fresh: "k' \<notin> fst ` set s" by auto
  show ?case
    using fresh by (auto simp: p assign_Cons Cons.IH [OF d] obj_get_obj_set obj_get_Cons)
qed

lemma strict_equal_undefined: "strict_equal v JUndefined = (v = JUndefined)"
  by (cases v) auto

lemma strict_equal_bool: "strict_equal v (JBool b) = (v = JBool b)"
  by (cases v) auto

lemma strict_equal_str: "strict_equal v (JStr s) = (v = JStr s)"
  by (cases v) auto

lemma strict_equal_num: "strict_equal v (JNum r) = (v = JNum r)"
  by (cases v) auto


section \<open>Auxiliary facts\<close>

lemma bounds_step_min_kept:
  "bounds_min r \<noteq> JUndefined \<Longrightarrow> bounds_min (bounds_step c r) = bounds_min r"
  by (simp add: bounds_step_def Let_def strict_equal_undefined)

lemma bounds_step_max_kept:
  "bounds_max r \<noteq> JUndefined \<Longrightarrow> bounds_max (bounds_step c r) = bounds_max r"
  by (simp add: bounds_step_def Let_def strict_equal_undefined)

lemma fold_bounds_min_kept:
  "bounds_min r \<noteq> JUndefined \<Longrightarrow> bounds_min (fold bounds_step cs r) = bounds_min r"
  by (induction cs arbitrary: r) (simp_all add: bounds_step_min_kept)

lemma fold_bounds_max_kept:
  "bounds_max r \<noteq> JUndefined \<Longrightarrow> bounds_max (fold bounds_step cs r) = bounds_max r"
  by (induction cs arbitrary: r) (simp_all add: bounds_step_max_kept)

lemma fold_bounds_min_first:
  "bounds_min r = JUndefined \<Longrightarrow> find (\<lambda>c. check_kind c = Some ''min'') cs = Some c \<Longrightarrow>
   check_value c \<noteq> JUndefined \<Longrightarrow> bounds_min (fold bounds_step cs r) = check_value c"
proof (induction cs arbitrary: r)
  case Nil
  then show ?case by simp
next
  case (Cons c0 cs)
  show ?case
  proof (cases "check_kind c0 = Some ''min''")
    case True
    with Cons.prems have c: "c = c0" by simp
    from True Cons.prems(1) have "bounds_min (bounds_step c0 r) = check_value c0"
      by (simp add: bounds_step_def Let_def strict_equal_undefined)
    with c Cons.prems(3) show ?thesis by (simp add: fold_bounds_min_kept)
  next
    case False
    with Cons.prems(1) have "bounds_min (bounds_step c0 r) = JUndefined"
      by (simp add: bounds_step_def Let_def)
    moreover from False Cons.prems(2) have "find (\<lambda>c. check_kind c = Some ''min'') cs = Some c"
      by simp
    ultimately show ?thesis using Cons.IH Cons.prems(3) by simp
  qed
qed

lemma fold_bounds_max_first:
  "bounds_max r = JUndefined \<Longrightarrow> find (\<lambda>c. check_kind c = Some ''max'') cs = Some c \<Longrightarrow>
   check_value c \<noteq> JUndefined \<Longrightarrow> bounds_max (fold bounds_step cs r) = check_value c"
proof (induction cs arbitrary: r)
  case Nil
  then show ?case by simp
next
  case (Cons c0 cs)
  show ?case
  proof (cases "check_kind c0 = Some ''max''")
    case True
    with Cons.prems have c: "c = c0" by simp
    from True Cons.prems(1) have "bounds_max (bounds_step c0 r) = check_value c0"
      by (simp add: bounds_step_def Let_def strict_equal_undefined)
    with c Cons.prems(3) show ?thesis by (simp add: fold_bounds_max_kept)
  next
    case False
    with Cons.prems(1) have "bounds_max (bounds_step c0 r) = JUndefined"
      by (simp add: bounds_step_def Let_def)
    moreover from False Cons.prems(2) have "find (\<lambda>c. check_kind c = Some ''max'') cs = Some c"
      by simp
    ultimately show ?thesis using Cons.IH Cons.prems(3) by simp
  qed
qed

lemma typeof_number_defined: "typeof v = ''number'' \<Longrightarrow> v \<noteq> JUndefined"
  by (cases v) auto


lemma map_of_visibility_fold:
  "map_of (fold (\<lambda>(key, fa) visibility.
             if strict_equal (obj_get ''visible'' fa) (JBool False) \<or> truthy (obj_get ''hidden'' fa)
             then obj_set key False visibility else visibility) fas acc) k =
   (if \<exists>fa. (k, fa) \<in> set fas
          \<and> (obj_get ''visible'' fa = JBool False \<or> truthy (obj_get ''hidden'' fa))
    then Some False else map_of acc k)"
proof (induction fas arbitrary: acc)
  case Nil
  then show ?case by simp
next
  case (Cons p fas)
  obtain key fa where p: "p = (key, fa)" by (cases p)
  let ?hid = "\<lambda>fa. obj_get ''visible'' fa = JBool False \<or> truthy (obj_get ''hidden'' fa)"
  show ?case
  proof (cases "?hid fa")
    case True
    then have step: "fold (\<lambda>(key, fa) visibility.
             if strict_equal (obj_get ''visible'' fa) (JBool False) \<or> truthy (obj_get ''hidden'' fa)
             then obj_set key False visibility else visibility) (p # fas) acc
        = fold (\<lambda>(key, fa) visibility.
             if strict_equal (obj_get ''visible'' fa) (JBool False) \<or> truthy (obj_get ''hidden'' fa)
             then obj_set key False visibility else visibility) fas (obj_set key False acc)"
      by (simp add: p strict_equal_bool)
    show ?thesis
      unfolding step Cons.IH using True by (auto simp: p map_of_obj_set)
  next
    case False
    then have step: "fold (\<lambda>(key, fa) visibility.
             if strict_equal (obj_get ''visible'' fa) (JBool False) \<or> truthy (obj_get ''hidden'' fa)
             then obj_set key False visibility else visibility) (p # fas) acc
        = fold (\<lambda>(key, fa) visibility.
             if strict_equal (obj_get ''visible'' fa) (JBool False) \<or> truthy (obj_get ''hidden'' fa)
             then obj_set key False visibility else visibility) fas acc"
      by (simp add: p strict_equal_bool)
    show ?thesis
      unfolding step Cons.IH using False by (auto simp: p)
  qed
qed


lemma distinct_DCA: "distinct (map fst DEFAULT_COLLECTION_AFFORDANCES)"
  by (simp add: DEFAULT_COLLECTION_AFFORDANCES_def)

lemma obj_get_spread:
  "distinct (map fst a) \<Longrightarrow> distinct (map fst b) \<Longrightarrow>
   obj_get k (spread a b) = (if k \<in> fst ` set b then obj_get k b else obj_get k a)"
  using assign_fresh [of "[]" a] by (simp add: spread_def obj_get_assign)

lemma spread_DP: "spread DEFAULT_PAGINATION [] = DEFAULT_PAGINATION"
  by (rule spread_empty) (simp add: DEFAULT_PAGINATION_def)

lemma spread_DS: "spread DEFAULT_SEARCH [] = DEFAULT_SEARCH"
  by (rule spread_empty) (simp add: DEFAULT_SEARCH_def)

lemma DCA_pagination: "obj_get ''pagination'' DEFAULT_COLLECTION_AFFORDANCES = JObj DEFAULT_PAGINATION"
  by (simp add: DEFAULT_COLLECTION_AFFORDANCES_def DEFAULT_PAGINATION_def obj_get_def)

lemma DCA_search: "obj_get ''search'' DEFAULT_COLLECTION_AFFORDANCES = JBool True"
  by (simp add: DEFAULT_COLLECTION_AFFORDANCES_def obj_get_def)

lemma spread_DP_DP: "spread DEFAULT_PAGINATION DEFAULT_PAGINATION = DEFAULT_PAGINATION"
  by code_simp


lemma distinct_visibility_fold:
  "distinct (map fst acc) \<Longrightarrow>
   distinct (map fst (fold (\<lambda>(key, fa) visibility.
             if strict_equal (obj_get ''visible'' fa) (JBool False) \<or> truthy (obj_get ''hidden'' fa)
             then obj_set key False visibility else visibility) fas acc))"
proof (induction fas arbitrary: acc)
  case Nil
  then show ?case by simp
next
  case (Cons p fas)
  obtain key fa where p: "p = (key, fa)" by (cases p)
  from Cons.prems have "distinct (map fst (obj_set key False acc))" by (rule distinct_obj_set)
  with Cons.prems show ?case by (simp add: p Cons.IH)
qed


lemma resolved_shorthand:
  assumes "distinct (map fst ps)"
  shows "obj_get ''pagination'' (resolveCollectionAffordances (JObj ps)) =
           (if ''pagination'' \<in> fst ` set ps
            then (if obj_get ''pagination'' ps = JBool True then JObj DEFAULT_PAGINATION
                  else if truthy (obj_get ''pagination'' ps)
                          \<and> typeof (obj_get ''pagination'' ps) = ''object''
                  then JObj (spread DEFAULT_PAGINATION (own_entries (obj_get ''pagination'' ps)))
                  else obj_get ''pagination'' ps)
            else JObj DEFAULT_PAGINATION)"
    and "obj_get ''search'' (resolveCollectionAffordances (JObj ps)) =
           (if ''search'' \<in> fst ` set ps
            then (if obj_get ''search'' ps = JBool True then JObj DEFAULT_SEARCH
                  else if truthy (obj_get ''search'' ps)
                          \<and> typeof (obj_get ''search'' ps) = ''object''
                  then JObj (spread DEFAULT_SEARCH (own_entries (obj_get ''search'' ps)))
                  else obj_get ''search'' ps)
            else JObj DEFAULT_SEARCH)"
  using assms
  by (auto simp: resolveCollectionAffordances_def Let_def obj_get_spread distinct_DCA
      obj_get_obj_set strict_equal_bool spread_DP spread_DS DCA_pagination DCA_search
      spread_DP_DP)

lemma distinct_DP: "distinct (map fst DEFAULT_PAGINATION)"
  by (simp add: DEFAULT_PAGINATION_def)

lemma distinct_DS: "distinct (map fst DEFAULT_SEARCH)"
  by (simp add: DEFAULT_SEARCH_def)


lemma contact_fields:
  "map_sum id (map (\<lambda>(k, fa). (k, obj_get ''visible'' fa, obj_get ''hidden'' fa)) \<circ> fieldAffordances)
     (defineCollection contact_shape (Some contact_config))
   = Inr [(''id'', JBool False, JUndefined), (''name'', JBool True, JUndefined),
          (''notes'', JBool True, JBool True)]"
  by code_simp


lemma status_inferred:
  "inferFieldAffordances ''status'' (z_enum [''draft'', ''active'', ''archived''])
   = Inr [(''sortable'', JStr ''both''), (''filterable'', JStr ''select''),
          (''searchable'', JBool False), (''groupable'', JBool True),
          (''editable'', JBool True), (''visible'', JBool True),
          (''title'', JStr ''Status'')]"
  by code_simp

lemma status_filter_config:
  "(case defineCollection status_shape None of
      Inl e \<Rightarrow> Inl e
    | Inr c \<Rightarrow> toFilterConfig c)
   = Inr [\<lparr>filter_name = ''status'', filter_label = JStr ''Status'', filterType = ''select'',
           filter_options = Some [(''Draft'', ''draft''), (''Active'', ''active''),
                                  (''Archived'', ''archived'')],
           filter_bounds = None, filter_zodType = JStr ''enum''\<rparr>]"
  by code_simp


lemma startsWith_map: "startsWith s p \<Longrightarrow> startsWith (map f s) (map f p)"
  by (induction s p rule: startsWith.induct) auto

lemma endsWith_lower: "endsWith key sfx \<Longrightarrow> endsWith (toLowerCase key) (toLowerCase sfx)"
  by (simp add: endsWith_def toLowerCase_def rev_map startsWith_map)

lemma lower_suffixes:
  "toLowerCase ''_id'' = ''_id''" "toLowerCase ''Id'' = ''id''" "toLowerCase ''ID'' = ''id''"
  "toLowerCase ''_key'' = ''_key''" "toLowerCase ''Key'' = ''key''"
  by code_simp+

lemma startsWith_shorter: "startsWith s (p @ q) \<Longrightarrow> startsWith s p"
  by (induction s p rule: startsWith.induct) auto

lemma endsWith_shorter: "endsWith s (q @ p) \<Longrightarrow> endsWith s p"
  by (simp add: endsWith_def startsWith_shorter)

lemma id_suffix_lower:
  assumes "ID_SUFFIX_PATTERNS key"
  shows "endsWith (toLowerCase key) ''id'' \<or> endsWith (toLowerCase key) ''key''"
proof -
  from assms consider "endsWith key ''_id''" | "endsWith key ''Id''" | "endsWith key ''ID''"
    | "endsWith key ''_key''" | "endsWith key ''Key''"
    by (auto simp: ID_SUFFIX_PATTERNS_def)
  then show ?thesis
  proof cases
    case 1
    from endsWith_lower [OF 1] have "endsWith (toLowerCase key) (''_'' @ ''id'')"
      by (simp add: lower_suffixes)
    then show ?thesis by (blast dest: endsWith_shorter)
  next
    case 2
    from endsWith_lower [OF 2] show ?thesis by (simp add: lower_suffixes)
  next
    case 3
    from endsWith_lower [OF 3] show ?thesis by (simp add: lower_suffixes)
  next
    case 4
    from endsWith_lower [OF 4] have "endsWith (toLowerCase key) (''_'' @ ''key'')"
      by (simp add: lower_suffixes)
    then show ?thesis by (blast dest: endsWith_shorter)
  next
    case 5
    from endsWith_lower [OF 5] show ?thesis by (simp add: lower_suffixes)
  qed
qed

section \<open>The name patterns are exclusive, but for identifier and secret\<close>

lemma id_alternatives:
  "ID_PATTERNS key = (toLowerCase key \<in> set
     [''id'', ''_id'', ''uuid'', ''uid'', ''key'', ''pk''])"
  by (simp add: ID_PATTERNS_def matches_any_ci_def)

lemma created_alternatives:
  "CREATED_PATTERNS key = (toLowerCase key \<in> set
     [''created_at'', ''createdat'', ''creation_date'', ''creationdate'', ''date_created'',
     ''datecreated'', ''ctime''])"
  by (simp add: CREATED_PATTERNS_def matches_any_ci_def)

lemma updated_alternatives:
  "UPDATED_PATTERNS key = (toLowerCase key \<in> set
     [''updated_at'', ''updatedat'', ''modified_at'', ''modifiedat'', ''last_modified'',
     ''lastmodified'', ''mtime'', ''changed_at'', ''changedat''])"
  by (simp add: UPDATED_PATTERNS_def matches_any_ci_def)

lemma deleted_alternatives:
  "DELETED_PATTERNS key = (toLowerCase key \<in> set
     [''deleted_at'', ''deletedat'', ''removed_at'', ''removedat''])"
  by (simp add: DELETED_PATTERNS_def matches_any_ci_def)

lemma secret_alternatives:
  "SECRET_PATTERNS key = (toLowerCase key \<in> set
     [''password'', ''secret'', ''token'', ''api_key'', ''apikey'', ''access_key'',
     ''accesskey'', ''private_key'', ''privatekey'', ''hash'', ''salt''])"
  by (simp add: SECRET_PATTERNS_def matches_any_ci_def)

lemma email_alternatives:
  "EMAIL_PATTERNS key = (toLowerCase key \<in> set
     [''email'', ''e_mail''])"
  by (simp add: EMAIL_PATTERNS_def matches_any_ci_def)

lemma name_alternatives:
  "NAME_PATTERNS key = (toLowerCase key \<in> set
     [''name'', ''title'', ''label'', ''display_name'', ''displayname'', ''full_name'',
     ''fullname'', ''username''])"
  by (simp add: NAME_PATTERNS_def matches_any_ci_def)

lemma description_alternatives:
  "DESCRIPTION_PATTERNS key = (toLowerCase key \<in> set
     [''description'', ''summary'', ''body'', ''content'', ''text'', ''bio'', ''about'',
     ''notes''])"
  by (simp add: DESCRIPTION_PATTERNS_def matches_any_ci_def)

lemma image_alternatives:
  "IMAGE_PATTERNS key = (toLowerCase key \<in> set
     [''image'', ''imageurl'', ''image_url'', ''photo'', ''photourl'', ''photo_url'', ''avatar'',
     ''avatarurl'', ''avatar_url'', ''thumbnail'', ''thumbnailurl'', ''thumbnail_url'',
     ''picture'', ''pictureurl'', ''picture_url'', ''icon'', ''iconurl'', ''icon_url'', ''logo'',
     ''logourl'', ''logo_url''])"
  by (simp add: IMAGE_PATTERNS_def matches_any_ci_def)

lemma status_alternatives:
  "STATUS_PATTERNS key = (toLowerCase key \<in> set
     [''status'', ''state'', ''phase'', ''stage''])"
  by (simp add: STATUS_PATTERNS_def matches_any_ci_def)

lemma created_apart:
  "list_all (\<lambda>x. x \<notin> set [''id'', ''_id'', ''uuid'', ''uid'', ''key'', ''pk''] \<and> x \<notin> set
       [''updated_at'', ''updatedat'', ''modified_at'', ''modifiedat'', ''last_modified'',
       ''lastmodified'', ''mtime'', ''changed_at'', ''changedat''] \<and> x \<notin> set
       [''deleted_at'', ''deletedat'', ''removed_at'', ''removedat''] \<and> x \<notin> set
       [''password'', ''secret'', ''token'', ''api_key'', ''apikey'', ''access_key'',
       ''accesskey'', ''private_key'', ''privatekey'', ''hash'', ''salt''] \<and> x \<notin> set
       [''email'', ''e_mail''] \<and> x \<notin> set [''name'', ''title'', ''label'',
       ''display_name'', ''displayname'', ''full_name'', ''fullname'', ''username''] \<and> x
       \<notin> set [''description'', ''summary'', ''body'', ''content'', ''text'', ''bio'',
       ''about'', ''notes''] \<and> x \<notin> set [''image'', ''imageurl'', ''image_url'',
       ''photo'', ''photourl'', ''photo_url'', ''avatar'', ''avatarurl'', ''avatar_url'',
       ''thumbnail'', ''thumbnailurl'', ''thumbnail_url'', ''picture'', ''pictureurl'',
       ''picture_url'', ''icon'', ''iconurl'', ''icon_url'', ''logo'', ''logourl'', ''logo_url'']
       \<and> x \<notin> set [''status'', ''state'', ''phase'', ''stage''] \<and> \<not> endsWith x
       ''id'' \<and> \<not> endsWith x ''key'')
     [''created_at'', ''createdat'', ''creation_date'', ''creationdate'', ''date_created'',
     ''datecreated'', ''ctime'']"
  by code_simp

lemma created_exclusive:
  assumes "CREATED_PATTERNS key"
  shows "\<not> ID_PATTERNS key \<and> \<not> ID_SUFFIX_PATTERNS key \<and> \<not> UPDATED_PATTERNS
    key \<and> \<not> DELETED_PATTERNS key \<and> \<not> SECRET_PATTERNS key \<and> \<not>
    EMAIL_PATTERNS key \<and> \<not> NAME_PATTERNS key \<and> \<not> DESCRIPTION_PATTERNS key
    \<and> \<not> IMAGE_PATTERNS key \<and> \<not> STATUS_PATTERNS key"
proof -
  from assms have "toLowerCase key \<in> set [''created_at'', ''createdat'', ''creation_date'', ''creationdate'', ''date_created'',
      ''datecreated'', ''ctime'']"
    by (simp only: created_alternatives)
  with created_apart [unfolded list_all_iff]
  have apart: "toLowerCase key \<notin> set [''id'', ''_id'', ''uuid'', ''uid'', ''key'', ''pk''] \<and>
      toLowerCase key \<notin> set [''updated_at'', ''updatedat'', ''modified_at'',
      ''modifiedat'', ''last_modified'', ''lastmodified'', ''mtime'', ''changed_at'',
      ''changedat''] \<and> toLowerCase key \<notin> set [''deleted_at'', ''deletedat'',
      ''removed_at'', ''removedat''] \<and> toLowerCase key \<notin> set [''password'',
      ''secret'', ''token'', ''api_key'', ''apikey'', ''access_key'', ''accesskey'',
      ''private_key'', ''privatekey'', ''hash'', ''salt''] \<and> toLowerCase key \<notin> set
      [''email'', ''e_mail''] \<and> toLowerCase key \<notin> set [''name'', ''title'', ''label'',
      ''display_name'', ''displayname'', ''full_name'', ''fullname'', ''username''] \<and>
      toLowerCase key \<notin> set [''description'', ''summary'', ''body'', ''content'', ''text'',
      ''bio'', ''about'', ''notes''] \<and> toLowerCase key \<notin> set [''image'', ''imageurl'',
      ''image_url'', ''photo'', ''photourl'', ''photo_url'', ''avatar'', ''avatarurl'',
      ''avatar_url'', ''thumbnail'', ''thumbnailurl'', ''thumbnail_url'', ''picture'',
      ''pictureurl'', ''picture_url'', ''icon'', ''iconurl'', ''icon_url'', ''logo'', ''logourl'',
      ''logo_url''] \<and> toLowerCase key \<notin> set [''status'', ''state'', ''phase'',
      ''stage''] \<and> \<not> endsWith (toLowerCase key) ''id'' \<and> \<not> endsWith (toLowerCase key) ''key''"
    by blast
  with id_suffix_lower [of key] have "\<not> ID_SUFFIX_PATTERNS key" by blast
  with apart show ?thesis
    by (simp only: id_alternatives updated_alternatives deleted_alternatives secret_alternatives
      email_alternatives name_alternatives description_alternatives image_alternatives
      status_alternatives
      simp_thms)
qed

lemma updated_apart:
  "list_all (\<lambda>x. x \<notin> set [''id'', ''_id'', ''uuid'', ''uid'', ''key'', ''pk''] \<and> x \<notin> set
       [''created_at'', ''createdat'', ''creation_date'', ''creationdate'', ''date_created'',
       ''datecreated'', ''ctime''] \<and> x \<notin> set [''deleted_at'', ''deletedat'',
       ''removed_at'', ''removedat''] \<and> x \<notin> set [''password'', ''secret'', ''token'',
       ''api_key'', ''apikey'', ''access_key'', ''accesskey'', ''private_key'', ''privatekey'',
       ''hash'', ''salt''] \<and> x \<notin> set [''email'', ''e_mail''] \<and> x \<notin> set
       [''name'', ''title'', ''label'', ''display_name'', ''displayname'', ''full_name'',
       ''fullname'', ''username''] \<and> x \<notin> set [''description'', ''summary'', ''body'',
       ''content'', ''text'', ''bio'', ''about'', ''notes''] \<and> x \<notin> set [''image'',
       ''imageurl'', ''image_url'', ''photo'', ''photourl'', ''photo_url'', ''avatar'',
       ''avatarurl'', ''avatar_url'', ''thumbnail'', ''thumbnailurl'', ''thumbnail_url'',
       ''picture'', ''pictureurl'', ''picture_url'', ''icon'', ''iconurl'', ''icon_url'', ''logo'',
       ''logourl'', ''logo_url''] \<and> x \<notin> set [''status'', ''state'', ''phase'',
       ''stage''] \<and> \<not> endsWith x ''id'' \<and> \<not> endsWith x ''key'')
     [''updated_at'', ''updatedat'', ''modified_at'', ''modifiedat'', ''last_modified'',
     ''lastmodified'', ''mtime'', ''changed_at'', ''changedat'']"
  by code_simp

lemma updated_exclusive:
  assumes "UPDATED_PATTERNS key"
  shows "\<not> ID_PATTERNS key \<and> \<not> ID_SUFFIX_PATTERNS key \<and> \<not> CREATED_PATTERNS
    key \<and> \<not> DELETED_PATTERNS key \<and> \<not> SECRET_PATTERNS key \<and> \<not>
    EMAIL_PATTERNS key \<and> \<not> NAME_PATTERNS key \<and> \<not> DESCRIPTION_PATTERNS key
    \<and> \<not> IMAGE_PATTERNS key \<and> \<not> STATUS_PATTERNS key"
proof -
  from assms have "toLowerCase key \<in> set [''updated_at'', ''updatedat'', ''modified_at'', ''modifiedat'', ''last_modified'',
      ''lastmodified'', ''mtime'', ''changed_at'', ''changedat'']"
    by (simp only: updated_alternatives)
  with updated_apart [unfolded list_all_iff]
  have apart: "toLowerCase key \<notin> set [''id'', ''_id'', ''uuid'', ''uid'', ''key'', ''pk''] \<and>
      toLowerCase key \<notin> set [''created_at'', ''createdat'', ''creation_date'',
      ''creationdate'', ''date_created'', ''datecreated'', ''ctime''] \<and> toLowerCase key
      \<notin> set [''deleted_at'', ''deletedat'', ''removed_at'', ''removedat''] \<and>
      toLowerCase key \<notin> set [''password'', ''secret'', ''token'', ''api_key'', ''apikey'',
      ''access_key'', ''accesskey'', ''private_key'', ''privatekey'', ''hash'', ''salt''] \<and>
      toLowerCase key \<notin> set [''email'', ''e_mail''] \<and> toLowerCase key \<notin> set
      [''name'', ''title'', ''label'', ''display_name'', ''displayname'', ''full_name'',
      ''fullname'', ''username''] \<and> toLowerCase key \<notin> set [''description'',
      ''summary'', ''body'', ''content'', ''text'', ''bio'', ''about'', ''notes''] \<and>
      toLowerCase key \<notin> set [''image'', ''imageurl'', ''image_url'', ''photo'',
      ''photourl'', ''photo_url'', ''avatar'', ''avatarurl'', ''avatar_url'', ''thumbnail'',
      ''thumbnailurl'', ''thumbnail_url'', ''picture'', ''pictureurl'', ''picture_url'', ''icon'',
      ''iconurl'', ''icon_url'', ''logo'', ''logourl'', ''logo_url''] \<and> toLowerCase key
      \<notin> set [''status'', ''state'', ''phase'', ''stage''] \<and> \<not> endsWith (toLowerCase key) ''id'' \<and> \<not> endsWith (toLowerCase key) ''key''"
    by blast
  with id_suffix_lower [of key] have "\<not> ID_SUFFIX_PATTERNS key" by blast
  with apart show ?thesis
    by (simp only: id_alternatives created_alternatives deleted_alternatives secret_alternatives
      email_alternatives name_alternatives description_alternatives image_alternatives
      status_alternatives
      simp_thms)
qed

lemma deleted_apart:
  "list_all (\<lambda>x. x \<notin> set [''id'', ''_id'', ''uuid'', ''uid'', ''key'', ''pk''] \<and> x \<notin> set
       [''created_at'', ''createdat'', ''creation_date'', ''creationdate'', ''date_created'',
       ''datecreated'', ''ctime''] \<and> x \<notin> set [''updated_at'', ''updatedat'',
       ''modified_at'', ''modifiedat'', ''last_modified'', ''lastmodified'', ''mtime'',
       ''changed_at'', ''changedat''] \<and> x \<notin> set [''password'', ''secret'', ''token'',
       ''api_key'', ''apikey'', ''access_key'', ''accesskey'', ''private_key'', ''privatekey'',
       ''hash'', ''salt''] \<and> x \<notin> set [''email'', ''e_mail''] \<and> x \<notin> set
       [''name'', ''title'', ''label'', ''display_name'', ''displayname'', ''full_name'',
       ''fullname'', ''username''] \<and> x \<notin> set [''description'', ''summary'', ''body'',
       ''content'', ''text'', ''bio'', ''about'', ''notes''] \<and> x \<notin> set [''image'',
       ''imageurl'', ''image_url'', ''photo'', ''photourl'', ''photo_url'', ''avatar'',
       ''avatarurl'', ''avatar_url'', ''thumbnail'', ''thumbnailurl'', ''thumbnail_url'',
       ''picture'', ''pictureurl'', ''picture_url'', ''icon'', ''iconurl'', ''icon_url'', ''logo'',
       ''logourl'', ''logo_url''] \<and> x \<notin> set [''status'', ''state'', ''phase'',
       ''stage''] \<and> \<not> endsWith x ''id'' \<and> \<not> endsWith x ''key'')
     [''deleted_at'', ''deletedat'', ''removed_at'', ''removedat'']"
  by code_simp

lemma deleted_exclusive:
  assumes "DELETED_PATTERNS key"
  shows "\<not> ID_PATTERNS key \<and> \<not> ID_SUFFIX_PATTERNS key \<and> \<not> CREATED_PATTERNS
    key \<and> \<not> UPDATED_PATTERNS key \<and> \<not> SECRET_PATTERNS key \<and> \<not>
    EMAIL_PATTERNS key \<and> \<not> NAME_PATTERNS key \<and> \<not> DESCRIPTION_PATTERNS key
    \<and> \<not> IMAGE_PATTERNS key \<and> \<not> STATUS_PATTERNS key"
proof -
  from assms have "toLowerCase key \<in> set [''deleted_at'', ''deletedat'', ''removed_at'', ''removedat'']"
    by (simp only: deleted_alternatives)
  with deleted_apart [unfolded list_all_iff]
  have apart: "toLowerCase key \<notin> set [''id'', ''_id'', ''uuid'', ''uid'', ''key'', ''pk''] \<and>
      toLowerCase key \<notin> set [''created_at'', ''createdat'', ''creation_date'',
      ''creationdate'', ''date_created'', ''datecreated'', ''ctime''] \<and> toLowerCase key
      \<notin> set [''updated_at'', ''updatedat'', ''modified_at'', ''modifiedat'',
      ''last_modified'', ''lastmodified'', ''mtime'', ''changed_at'', ''changedat''] \<and>
      toLowerCase key \<notin> set [''password'', ''secret'', ''token'', ''api_key'', ''apikey'',
      ''access_key'', ''accesskey'', ''private_key'', ''privatekey'', ''hash'', ''salt''] \<and>
      toLowerCase key \<notin> set [''email'', ''e_mail''] \<and> toLowerCase key \<notin> set
      [''name'', ''title'', ''label'', ''display_name'', ''displayname'', ''full_name'',
      ''fullname'', ''username''] \<and> toLowerCase key \<notin> set [''description'',
      ''summary'', ''body'', ''content'', ''text'', ''bio'', ''about'', ''notes''] \<and>
      toLowerCase key \<notin> set [''image'', ''imageurl'', ''image_url'', ''photo'',
      ''photourl'', ''photo_url'', ''avatar'', ''avatarurl'', ''avatar_url'', ''thumbnail'',
      ''thumbnailurl'', ''thumbnail_url'', ''picture'', ''pictureurl'', ''picture_url'', ''icon'',
      ''iconurl'', ''icon_url'', ''logo'', ''logourl'', ''logo_url''] \<and> toLowerCase key
      \<notin> set [''status'', ''state'', ''phase'', ''stage''] \<and> \<not> endsWith (toLowerCase key) ''id'' \<and> \<not> endsWith (toLowerCase key) ''key''"
    by blast
  with id_suffix_lower [of key] have "\<not> ID_SUFFIX_PATTERNS key" by blast
  with apart show ?thesis
    by (simp only: id_alternatives created_alternatives updated_alternatives secret_alternatives
      email_alternatives name_alternatives description_alternatives image_alternatives
      status_alternatives
      simp_thms)
qed

lemma secret_apart:
  "list_all (\<lambda>x. x \<notin> set [''id'', ''_id'', ''uuid'', ''uid'', ''key'', ''pk''] \<and> x \<notin> set
       [''created_at'', ''createdat'', ''creation_date'', ''creationdate'', ''date_created'',
       ''datecreated'', ''ctime''] \<and> x \<notin> set [''updated_at'', ''updatedat'',
       ''modified_at'', ''modifiedat'', ''last_modified'', ''lastmodified'', ''mtime'',
       ''changed_at'', ''changedat''] \<and> x \<notin> set [''deleted_at'', ''deletedat'',
       ''removed_at'', ''removedat''] \<and> x \<notin> set [''email'', ''e_mail''] \<and> x
       \<notin> set [''name'', ''title'', ''label'', ''display_name'', ''displayname'',
       ''full_name'', ''fullname'', ''username''] \<and> x \<notin> set [''description'',
       ''summary'', ''body'', ''content'', ''text'', ''bio'', ''about'', ''notes''] \<and> x
       \<notin> set [''image'', ''imageurl'', ''image_url'', ''photo'', ''photourl'',
       ''photo_url'', ''avatar'', ''avatarurl'', ''avatar_url'', ''thumbnail'', ''thumbnailurl'',
       ''thumbnail_url'', ''picture'', ''pictureurl'', ''picture_url'', ''icon'', ''iconurl'',
       ''icon_url'', ''logo'', ''logourl'', ''logo_url''] \<and> x \<notin> set [''status'',
       ''state'', ''phase'', ''stage''])
     [''password'', ''secret'', ''token'', ''api_key'', ''apikey'', ''access_key'',
     ''accesskey'', ''private_key'', ''privatekey'', ''hash'', ''salt'']"
  by code_simp

lemma secret_exclusive:
  assumes "SECRET_PATTERNS key"
  shows "\<not> ID_PATTERNS key \<and> \<not> CREATED_PATTERNS key \<and> \<not> UPDATED_PATTERNS key
    \<and> \<not> DELETED_PATTERNS key \<and> \<not> EMAIL_PATTERNS key \<and> \<not>
    NAME_PATTERNS key \<and> \<not> DESCRIPTION_PATTERNS key \<and> \<not> IMAGE_PATTERNS key
    \<and> \<not> STATUS_PATTERNS key"
proof -
  from assms have "toLowerCase key \<in> set [''password'', ''secret'', ''token'', ''api_key'', ''apikey'', ''access_key'',
      ''accesskey'', ''private_key'', ''privatekey'', ''hash'', ''salt'']"
    by (simp only: secret_alternatives)
  with secret_apart [unfolded list_all_iff]
  have apart: "toLowerCase key \<notin> set [''id'', ''_id'', ''uuid'', ''uid'', ''key'', ''pk''] \<and>
      toLowerCase key \<notin> set [''created_at'', ''createdat'', ''creation_date'',
      ''creationdate'', ''date_created'', ''datecreated'', ''ctime''] \<and> toLowerCase key
      \<notin> set [''updated_at'', ''updatedat'', ''modified_at'', ''modifiedat'',
      ''last_modified'', ''lastmodified'', ''mtime'', ''changed_at'', ''changedat''] \<and>
      toLowerCase key \<notin> set [''deleted_at'', ''deletedat'', ''removed_at'', ''removedat'']
      \<and> toLowerCase key \<notin> set [''email'', ''e_mail''] \<and> toLowerCase key \<notin>
      set [''name'', ''title'', ''label'', ''display_name'', ''displayname'', ''full_name'',
      ''fullname'', ''username''] \<and> toLowerCase key \<notin> set [''description'',
      ''summary'', ''body'', ''content'', ''text'', ''bio'', ''about'', ''notes''] \<and>
      toLowerCase key \<notin> set [''image'', ''imageurl'', ''image_url'', ''photo'',
      ''photourl'', ''photo_url'', ''avatar'', ''avatarurl'', ''avatar_url'', ''thumbnail'',
      ''thumbnailurl'', ''thumbnail_url'', ''picture'', ''pictureurl'', ''picture_url'', ''icon'',
      ''iconurl'', ''icon_url'', ''logo'', ''logourl'', ''logo_url''] \<and> toLowerCase key
      \<notin> set [''status'', ''state'', ''phase'', ''stage'']"
    by blast
  then show ?thesis
    by (simp only: id_alternatives created_alternatives updated_alternatives deleted_alternatives
      email_alternatives name_alternatives description_alternatives image_alternatives
      status_alternatives
      simp_thms)
qed

lemma email_apart:
  "list_all (\<lambda>x. x \<notin> set [''id'', ''_id'', ''uuid'', ''uid'', ''key'', ''pk''] \<and> x \<notin> set
       [''created_at'', ''createdat'', ''creation_date'', ''creationdate'', ''date_created'',
       ''datecreated'', ''ctime''] \<and> x \<notin> set [''updated_at'', ''updatedat'',
       ''modified_at'', ''modifiedat'', ''last_modified'', ''lastmodified'', ''mtime'',
       ''changed_at'', ''changedat''] \<and> x \<notin> set [''deleted_at'', ''deletedat'',
       ''removed_at'', ''removedat''] \<and> x \<notin> set [''password'', ''secret'', ''token'',
       ''api_key'', ''apikey'', ''access_key'', ''accesskey'', ''private_key'', ''privatekey'',
       ''hash'', ''salt''] \<and> x \<notin> set [''name'', ''title'', ''label'', ''display_name'',
       ''displayname'', ''full_name'', ''fullname'', ''username''] \<and> x \<notin> set
       [''description'', ''summary'', ''body'', ''content'', ''text'', ''bio'', ''about'',
       ''notes''] \<and> x \<notin> set [''image'', ''imageurl'', ''image_url'', ''photo'',
       ''photourl'', ''photo_url'', ''avatar'', ''avatarurl'', ''avatar_url'', ''thumbnail'',
       ''thumbnailurl'', ''thumbnail_url'', ''picture'', ''pictureurl'', ''picture_url'', ''icon'',
       ''iconurl'', ''icon_url'', ''logo'', ''logourl'', ''logo_url''] \<and> x \<notin> set
       [''status'', ''state'', ''phase'', ''stage''] \<and> \<not> endsWith x ''id'' \<and> \<not>
       endsWith x ''key'')
     [''email'', ''e_mail'']"
  by code_simp

lemma email_exclusive:
  assumes "EMAIL_PATTERNS key"
  shows "\<not> ID_PATTERNS key \<and> \<not> ID_SUFFIX_PATTERNS key \<and> \<not> CREATED_PATTERNS
    key \<and> \<not> UPDATED_PATTERNS key \<and> \<not> DELETED_PATTERNS key \<and> \<not>
    SECRET_PATTERNS key \<and> \<not> NAME_PATTERNS key \<and> \<not> DESCRIPTION_PATTERNS key
    \<and> \<not> IMAGE_PATTERNS key \<and> \<not> STATUS_PATTERNS key"
proof -
  from assms have "toLowerCase key \<in> set [''email'', ''e_mail'']"
    by (simp only: email_alternatives)
  with email_apart [unfolded list_all_iff]
  have apart: "toLowerCase key \<notin> set [''id'', ''_id'', ''uuid'', ''uid'', ''key'', ''pk''] \<and>
      toLowerCase key \<notin> set [''created_at'', ''createdat'', ''creation_date'',
      ''creationdate'', ''date_created'', ''datecreated'', ''ctime''] \<and> toLowerCase key
      \<notin> set [''updated_at'', ''updatedat'', ''modified_at'', ''modifiedat'',
      ''last_modified'', ''lastmodified'', ''mtime'', ''changed_at'', ''changedat''] \<and>
      toLowerCase key \<notin> set [''deleted_at'', ''deletedat'', ''removed_at'', ''removedat'']
      \<and> toLowerCase key \<notin> set [''password'', ''secret'', ''token'', ''api_key'',
      ''apikey'', ''access_key'', ''accesskey'', ''private_key'', ''privatekey'', ''hash'',
      ''salt''] \<and> toLowerCase key \<notin> set [''name'', ''title'', ''label'',
      ''display_name'', ''displayname'', ''full_name'', ''fullname'', ''username''] \<and>
      toLowerCase key \<notin> set [''description'', ''summary'', ''body'', ''content'', ''text'',
      ''bio'', ''about'', ''notes''] \<and> toLowerCase key \<notin> set [''image'', ''imageurl'',
      ''image_url'', ''photo'', ''photourl'', ''photo_url'', ''avatar'', ''avatarurl'',
      ''avatar_url'', ''thumbnail'', ''thumbnailurl'', ''thumbnail_url'', ''picture'',
      ''pictureurl'', ''picture_url'', ''icon'', ''iconurl'', ''icon_url'', ''logo'', ''logourl'',
      ''logo_url''] \<and> toLowerCase key \<notin> set [''status'', ''state'', ''phase'',
      ''stage''] \<and> \<not> endsWith (toLowerCase key) ''id'' \<and> \<not> endsWith (toLowerCase key) ''key''"
    by blast
  with id_suffix_lower [of key] have "\<not> ID_SUFFIX_PATTERNS key" by blast
  with apart show ?thesis
    by (simp only: id_alternatives created_alternatives updated_alternatives deleted_alternatives
      secret_alternatives name_alternatives description_alternatives image_alternatives
      status_alternatives
      simp_thms)
qed

lemma name_apart:
  "list_all (\<lambda>x. x \<notin> set [''id'', ''_id'', ''uuid'', ''uid'', ''key'', ''pk''] \<and> x \<notin> set
       [''created_at'', ''createdat'', ''creation_date'', ''creationdate'', ''date_created'',
       ''datecreated'', ''ctime''] \<and> x \<notin> set [''updated_at'', ''updatedat'',
       ''modified_at'', ''modifiedat'', ''last_modified'', ''lastmodified'', ''mtime'',
       ''changed_at'', ''changedat''] \<and> x \<notin> set [''deleted_at'', ''deletedat'',
       ''removed_at'', ''removedat''] \<and> x \<notin> set [''password'', ''secret'', ''token'',
       ''api_key'', ''apikey'', ''access_key'', ''accesskey'', ''private_key'', ''privatekey'',
       ''hash'', ''salt''] \<and> x \<notin> set [''email'', ''e_mail''] \<and> x \<notin> set
       [''description'', ''summary'', ''body'', ''content'', ''text'', ''bio'', ''about'',
       ''notes''] \<and> x \<notin> set [''image'', ''imageurl'', ''image_url'', ''photo'',
       ''photourl'', ''photo_url'', ''avatar'', ''avatarurl'', ''avatar_url'', ''thumbnail'',
       ''thumbnailurl'', ''thumbnail_url'', ''picture'', ''pictureurl'', ''picture_url'', ''icon'',
       ''iconurl'', ''icon_url'', ''logo'', ''logourl'', ''logo_url''] \<and> x \<notin> set
       [''status'', ''state'', ''phase'', ''stage''] \<and> \<not> endsWith x ''id'' \<and> \<not>
       endsWith x ''key'')
     [''name'', ''title'', ''label'', ''display_name'', ''displayname'', ''full_name'',
     ''fullname'', ''username'']"
  by code_simp

lemma name_exclusive:
  assumes "NAME_PATTERNS key"
  shows "\<not> ID_PATTERNS key \<and> \<not> ID_SUFFIX_PATTERNS key \<and> \<not> CREATED_PATTERNS
    key \<and> \<not> UPDATED_PATTERNS key \<and> \<not> DELETED_PATTERNS key \<and> \<not>
    SECRET_PATTERNS key \<and> \<not> EMAIL_PATTERNS key \<and> \<not> DESCRIPTION_PATTERNS key
    \<and> \<not> IMAGE_PATTERNS key \<and> \<not> STATUS_PATTERNS key"
proof -
  from assms have "toLowerCase key \<in> set [''name'', ''title'', ''label'', ''display_name'', ''displayname'', ''full_name'',
      ''fullname'', ''username'']"
    by (simp only: name_alternatives)
  with name_apart [unfolded list_all_iff]
  have apart: "toLowerCase key \<notin> set [''id'', ''_id'', ''uuid'', ''uid'', ''key'', ''pk''] \<and>
      toLowerCase key \<notin> set [''created_at'', ''createdat'', ''creation_date'',
      ''creationdate'', ''date_created'', ''datecreated'', ''ctime''] \<and> toLowerCase key
      \<notin> set [''updated_at'', ''updatedat'', ''modified_at'', ''modifiedat'',
      ''last_modified'', ''lastmodified'', ''mtime'', ''changed_at'', ''changedat''] \<and>
      toLowerCase key \<notin> set [''deleted_at'', ''deletedat'', ''removed_at'', ''removedat'']
      \<and> toLowerCase key \<notin> set [''password'', ''secret'', ''token'', ''api_key'',
      ''apikey'', ''access_key'', ''accesskey'', ''private_key'', ''privatekey'', ''hash'',
      ''salt''] \<and> toLowerCase key \<notin> set [''email'', ''e_mail''] \<and> toLowerCase key
      \<notin> set [''description'', ''summary'', ''body'', ''content'', ''text'', ''bio'',
      ''about'', ''notes''] \<and> toLowerCase key \<notin> set [''image'', ''imageurl'',
      ''image_url'', ''photo'', ''photourl'', ''photo_url'', ''avatar'', ''avatarurl'',
      ''avatar_url'', ''thumbnail'', ''thumbnailurl'', ''thumbnail_url'', ''picture'',
      ''pictureurl'', ''picture_url'', ''icon'', ''iconurl'', ''icon_url'', ''logo'', ''logourl'',
      ''logo_url''] \<and> toLowerCase key \<notin> set [''status'', ''state'', ''phase'',
      ''stage''] \<and> \<not> endsWith (toLowerCase key) ''id'' \<and> \<not> endsWith (toLowerCase key) ''key''"
    by blast
  with id_suffix_lower [of key] have "\<not> ID_SUFFIX_PATTERNS key" by blast
  with apart show ?thesis
    by (simp only: id_alternatives created_alternatives updated_alternatives deleted_alternatives
      secret_alternatives email_alternatives description_alternatives image_alternatives
      status_alternatives
      simp_thms)
qed

lemma description_apart:
  "list_all (\<lambda>x. x \<notin> set [''id'', ''_id'', ''uuid'', ''uid'', ''key'', ''pk''] \<and> x \<notin> set
       [''created_at'', ''createdat'', ''creation_date'', ''creationdate'', ''date_created'',
       ''datecreated'', ''ctime''] \<and> x \<notin> set [''updated_at'', ''updatedat'',
       ''modified_at'', ''modifiedat'', ''last_modified'', ''lastmodified'', ''mtime'',
       ''changed_at'', ''changedat''] \<and> x \<notin> set [''deleted_at'', ''deletedat'',
       ''removed_at'', ''removedat''] \<and> x \<notin> set [''password'', ''secret'', ''token'',
       ''api_key'', ''apikey'', ''access_key'', ''accesskey'', ''private_key'', ''privatekey'',
       ''hash'', ''salt''] \<and> x \<notin> set [''email'', ''e_mail''] \<and> x \<notin> set
       [''name'', ''title'', ''label'', ''display_name'', ''displayname'', ''full_name'',
       ''fullname'', ''username''] \<and> x \<notin> set [''image'', ''imageurl'', ''image_url'',
       ''photo'', ''photourl'', ''photo_url'', ''avatar'', ''avatarurl'', ''avatar_url'',
       ''thumbnail'', ''thumbnailurl'', ''thumbnail_url'', ''picture'', ''pictureurl'',
       ''picture_url'', ''icon'', ''iconurl'', ''icon_url'', ''logo'', ''logourl'', ''logo_url'']
       \<and> x \<notin> set [''status'', ''state'', ''phase'', ''stage''] \<and> \<not> endsWith x
       ''id'' \<and> \<not> endsWith x ''key'')
     [''description'', ''summary'', ''body'', ''content'', ''text'', ''bio'', ''about'',
     ''notes'']"
  by code_simp

lemma description_exclusive:
  assumes "DESCRIPTION_PATTERNS key"
  shows "\<not> ID_PATTERNS key \<and> \<not> ID_SUFFIX_PATTERNS key \<and> \<not> CREATED_PATTERNS
    key \<and> \<not> UPDATED_PATTERNS key \<and> \<not> DELETED_PATTERNS key \<and> \<not>
    SECRET_PATTERNS key \<and> \<not> EMAIL_PATTERNS key \<and> \<not> NAME_PATTERNS key \<and>
    \<not> IMAGE_PATTERNS key \<and> \<not> STATUS_PATTERNS key"
proof -
  from assms have "toLowerCase key \<in> set [''description'', ''summary'', ''body'', ''content'', ''text'', ''bio'', ''about'',
      ''notes'']"
    by (simp only: description_alternatives)
  with description_apart [unfolded list_all_iff]
  have apart: "toLowerCase key \<notin> set [''id'', ''_id'', ''uuid'', ''uid'', ''key'', ''pk''] \<and>
      toLowerCase key \<notin> set [''created_at'', ''createdat'', ''creation_date'',
      ''creationdate'', ''date_created'', ''datecreated'', ''ctime''] \<and> toLowerCase key
      \<notin> set [''updated_at'', ''updatedat'', ''modified_at'', ''modifiedat'',
      ''last_modified'', ''lastmodified'', ''mtime'', ''changed_at'', ''changedat''] \<and>
      toLowerCase key \<notin> set [''deleted_at'', ''deletedat'', ''removed_at'', ''removedat'']
      \<and> toLowerCase key \<notin> set [''password'', ''secret'', ''token'', ''api_key'',
      ''apikey'', ''access_key'', ''accesskey'', ''private_key'', ''privatekey'', ''hash'',
      ''salt''] \<and> toLowerCase key \<notin> set [''email'', ''e_mail''] \<and> toLowerCase key
      \<notin> set [''name'', ''title'', ''label'', ''display_name'', ''displayname'',
      ''full_name'', ''fullname'', ''username''] \<and> toLowerCase key \<notin> set [''image'',
      ''imageurl'', ''image_url'', ''photo'', ''photourl'', ''photo_url'', ''avatar'',
      ''avatarurl'', ''avatar_url'', ''thumbnail'', ''thumbnailurl'', ''thumbnail_url'',
      ''picture'', ''pictureurl'', ''picture_url'', ''icon'', ''iconurl'', ''icon_url'', ''logo'',
      ''logourl'', ''logo_url''] \<and> toLowerCase key \<notin> set [''status'', ''state'',
      ''phase'', ''stage''] \<and> \<not> endsWith (toLowerCase key) ''id'' \<and> \<not> endsWith (toLowerCase key) ''key''"
    by blast
  with id_suffix_lower [of key] have "\<not> ID_SUFFIX_PATTERNS key" by blast
  with apart show ?thesis
    by (simp only: id_alternatives created_alternatives updated_alternatives deleted_alternatives
      secret_alternatives email_alternatives name_alternatives image_alternatives
      status_alternatives
      simp_thms)
qed

lemma image_apart:
  "list_all (\<lambda>x. x \<notin> set [''id'', ''_id'', ''uuid'', ''uid'', ''key'', ''pk''] \<and> x \<notin> set
       [''created_at'', ''createdat'', ''creation_date'', ''creationdate'', ''date_created'',
       ''datecreated'', ''ctime''] \<and> x \<notin> set [''updated_at'', ''updatedat'',
       ''modified_at'', ''modifiedat'', ''last_modified'', ''lastmodified'', ''mtime'',
       ''changed_at'', ''changedat''] \<and> x \<notin> set [''deleted_at'', ''deletedat'',
       ''removed_at'', ''removedat''] \<and> x \<notin> set [''password'', ''secret'', ''token'',
       ''api_key'', ''apikey'', ''access_key'', ''accesskey'', ''private_key'', ''privatekey'',
       ''hash'', ''salt''] \<and> x \<notin> set [''email'', ''e_mail''] \<and> x \<notin> set
       [''name'', ''title'', ''label'', ''display_name'', ''displayname'', ''full_name'',
       ''fullname'', ''username''] \<and> x \<notin> set [''description'', ''summary'', ''body'',
       ''content'', ''text'', ''bio'', ''about'', ''notes''] \<and> x \<notin> set [''status'',
       ''state'', ''phase'', ''stage''] \<and> \<not> endsWith x ''id'' \<and> \<not> endsWith x
       ''key'')
     [''image'', ''imageurl'', ''image_url'', ''photo'', ''photourl'', ''photo_url'', ''avatar'',
     ''avatarurl'', ''avatar_url'', ''thumbnail'', ''thumbnailurl'', ''thumbnail_url'',
     ''picture'', ''pictureurl'', ''picture_url'', ''icon'', ''iconurl'', ''icon_url'', ''logo'',
     ''logourl'', ''logo_url'']"
  by code_simp

lemma image_exclusive:
  assumes "IMAGE_PATTERNS key"
  shows "\<not> ID_PATTERNS key \<and> \<not> ID_SUFFIX_PATTERNS key \<and> \<not> CREATED_PATTERNS
    key \<and> \<not> UPDATED_PATTERNS key \<and> \<not> DELETED_PATTERNS key \<and> \<not>
    SECRET_PATTERNS key \<and> \<not> EMAIL_PATTERNS key \<and> \<not> NAME_PATTERNS key \<and>
    \<not> DESCRIPTION_PATTERNS key \<and> \<not> STATUS_PATTERNS key"
proof -
  from assms have "toLowerCase key \<in> set [''image'', ''imageurl'', ''image_url'', ''photo'', ''photourl'', ''photo_url'', ''avatar'',
      ''avatarurl'', ''avatar_url'', ''thumbnail'', ''thumbnailurl'', ''thumbnail_url'',
      ''picture'', ''pictureurl'', ''picture_url'', ''icon'', ''iconurl'', ''icon_url'', ''logo'',
      ''logourl'', ''logo_url'']"
    by (simp only: image_alternatives)
  with image_apart [unfolded list_all_iff]
  have apart: "toLowerCase key \<notin> set [''id'', ''_id'', ''uuid'', ''uid'', ''key'', ''pk''] \<and>
      toLowerCase key \<notin> set [''created_at'', ''createdat'', ''creation_date'',
      ''creationdate'', ''date_created'', ''datecreated'', ''ctime''] \<and> toLowerCase key
      \<notin> set [''updated_at'', ''updatedat'', ''modified_at'', ''modifiedat'',
      ''last_modified'', ''lastmodified'', ''mtime'', ''changed_at'', ''changedat''] \<and>
      toLowerCase key \<notin> set [''deleted_at'', ''deletedat'', ''removed_at'', ''removedat'']
      \<and> toLowerCase key \<notin> set [''password'', ''secret'', ''token'', ''api_key'',
      ''apikey'', ''access_key'', ''accesskey'', ''private_key'', ''privatekey'', ''hash'',
      ''salt''] \<and> toLowerCase key \<notin> set [''email'', ''e_mail''] \<and> toLowerCase key
      \<notin> set [''name'', ''title'', ''label'', ''display_name'', ''displayname'',
      ''full_name'', ''fullname'', ''username''] \<and> toLowerCase key \<notin> set
      [''description'', ''summary'', ''body'', ''content'', ''text'', ''bio'', ''about'',
      ''notes''] \<and> toLowerCase key \<notin> set [''status'', ''state'', ''phase'', ''stage'']
      \<and> \<not> endsWith (toLowerCase key) ''id'' \<and> \<not> endsWith (toLowerCase key) ''key''"
    by blast
  with id_suffix_lower [of key] have "\<not> ID_SUFFIX_PATTERNS key" by blast
  with apart show ?thesis
    by (simp only: id_alternatives created_alternatives updated_alternatives deleted_alternatives
      secret_alternatives email_alternatives name_alternatives description_alternatives
      status_alternatives
      simp_thms)
qed

lemma status_apart:
  "list_all (\<lambda>x. x \<notin> set [''id'', ''_id'', ''uuid'', ''uid'', ''key'', ''pk''] \<and> x \<notin> set
       [''created_at'', ''createdat'', ''creation_date'', ''creationdate'', ''date_created'',
       ''datecreated'', ''ctime''] \<and> x \<notin> set [''updated_at'', ''updatedat'',
       ''modified_at'', ''modifiedat'', ''last_modified'', ''lastmodified'', ''mtime'',
       ''changed_at'', ''changedat''] \<and> x \<notin> set [''deleted_at'', ''deletedat'',
       ''removed_at'', ''removedat''] \<and> x \<notin> set [''password'', ''secret'', ''token'',
       ''api_key'', ''apikey'', ''access_key'', ''accesskey'', ''private_key'', ''privatekey'',
       ''hash'', ''salt''] \<and> x \<notin> set [''email'', ''e_mail''] \<and> x \<notin> set
       [''name'', ''title'', ''label'', ''display_name'', ''displayname'', ''full_name'',
       ''fullname'', ''username''] \<and> x \<notin> set [''description'', ''summary'', ''body'',
       ''content'', ''text'', ''bio'', ''about'', ''notes''] \<and> x \<notin> set [''image'',
       ''imageurl'', ''image_url'', ''photo'', ''photourl'', ''photo_url'', ''avatar'',
       ''avatarurl'', ''avatar_url'', ''thumbnail'', ''thumbnailurl'', ''thumbnail_url'',
       ''picture'', ''pictureurl'', ''picture_url'', ''icon'', ''iconurl'', ''icon_url'', ''logo'',
       ''logourl'', ''logo_url''] \<and> \<not> endsWith x ''id'' \<and> \<not> endsWith x ''key'')
     [''status'', ''state'', ''phase'', ''stage'']"
  by code_simp

lemma status_exclusive:
  assumes "STATUS_PATTERNS key"
  shows "\<not> ID_PATTERNS key \<and> \<not> ID_SUFFIX_PATTERNS key \<and> \<not> CREATED_PATTERNS
    key \<and> \<not> UPDATED_PATTERNS key \<and> \<not> DELETED_PATTERNS key \<and> \<not>
    SECRET_PATTERNS key \<and> \<not> EMAIL_PATTERNS key \<and> \<not> NAME_PATTERNS key \<and>
    \<not> DESCRIPTION_PATTERNS key \<and> \<not> IMAGE_PATTERNS key"
proof -
  from assms have "toLowerCase key \<in> set [''status'', ''state'', ''phase'', ''stage'']"
    by (simp only: status_alternatives)
  with status_apart [unfolded list_all_iff]
  have apart: "toLowerCase key \<notin> set [''id'', ''_id'', ''uuid'', ''uid'', ''key'', ''pk''] \<and>
      toLowerCase key \<notin> set [''created_at'', ''createdat'', ''creation_date'',
      ''creationdate'', ''date_created'', ''datecreated'', ''ctime''] \<and> toLowerCase key
      \<notin> set [''updated_at'', ''updatedat'', ''modified_at'', ''modifiedat'',
      ''last_modified'', ''lastmodified'', ''mtime'', ''changed_at'', ''changedat''] \<and>
      toLowerCase key \<notin> set [''deleted_at'', ''deletedat'', ''removed_at'', ''removedat'']
      \<and> toLowerCase key \<notin> set [''password'', ''secret'', ''token'', ''api_key'',
      ''apikey'', ''access_key'', ''accesskey'', ''private_key'', ''privatekey'', ''hash'',
      ''salt''] \<and> toLowerCase key \<notin> set [''email'', ''e_mail''] \<and> toLowerCase key
      \<notin> set [''name'', ''title'', ''label'', ''display_name'', ''displayname'',
      ''full_name'', ''fullname'', ''username''] \<and> toLowerCase key \<notin> set
      [''description'', ''summary'', ''body'', ''content'', ''text'', ''bio'', ''about'',
      ''notes''] \<and> toLowerCase key \<notin> set [''image'', ''imageurl'', ''image_url'',
      ''photo'', ''photourl'', ''photo_url'', ''avatar'', ''avatarurl'', ''avatar_url'',
      ''thumbnail'', ''thumbnailurl'', ''thumbnail_url'', ''picture'', ''pictureurl'',
      ''picture_url'', ''icon'', ''iconurl'', ''icon_url'', ''logo'', ''logourl'', ''logo_url'']
      \<and> \<not> endsWith (toLowerCase key) ''id'' \<and> \<not> endsWith (toLowerCase key) ''key''"
    by blast
  with id_suffix_lower [of key] have "\<not> ID_SUFFIX_PATTERNS key" by blast
  with apart show ?thesis
    by (simp only: id_alternatives created_alternatives updated_alternatives deleted_alternatives
      secret_alternatives email_alternatives name_alternatives description_alternatives
      image_alternatives
      simp_thms)
qed

lemma two_heuristics_match:
  assumes "2 \<le> length (filter (\<lambda>p. p key) name_heuristics)"
  shows "(ID_PATTERNS key \<or> ID_SUFFIX_PATTERNS key) \<and> SECRET_PATTERNS key
    \<and> \<not> CREATED_PATTERNS key \<and> \<not> UPDATED_PATTERNS key \<and> \<not> DELETED_PATTERNS key
    \<and> \<not> EMAIL_PATTERNS key \<and> \<not> NAME_PATTERNS key \<and> \<not> DESCRIPTION_PATTERNS key
    \<and> \<not> IMAGE_PATTERNS key \<and> \<not> STATUS_PATTERNS key"
proof -
  consider (c) "CREATED_PATTERNS key" | (u) "UPDATED_PATTERNS key" | (d) "DELETED_PATTERNS key"
    | (e) "EMAIL_PATTERNS key" | (n) "NAME_PATTERNS key" | (ds) "DESCRIPTION_PATTERNS key"
    | (i) "IMAGE_PATTERNS key" | (s) "STATUS_PATTERNS key"
    | (none) "\<not> CREATED_PATTERNS key \<and> \<not> UPDATED_PATTERNS key \<and> \<not> DELETED_PATTERNS key
        \<and> \<not> EMAIL_PATTERNS key \<and> \<not> NAME_PATTERNS key \<and> \<not> DESCRIPTION_PATTERNS key
        \<and> \<not> IMAGE_PATTERNS key \<and> \<not> STATUS_PATTERNS key"
    by blast
  then show ?thesis
  proof cases
    case c
    from created_exclusive [OF c] c assms show ?thesis by (simp add: name_heuristics_def)
  next
    case u
    from updated_exclusive [OF u] u assms show ?thesis by (simp add: name_heuristics_def)
  next
    case d
    from deleted_exclusive [OF d] d assms show ?thesis by (simp add: name_heuristics_def)
  next
    case e
    from email_exclusive [OF e] e assms show ?thesis by (simp add: name_heuristics_def)
  next
    case n
    from name_exclusive [OF n] n assms show ?thesis by (simp add: name_heuristics_def)
  next
    case ds
    from description_exclusive [OF ds] ds assms show ?thesis by (simp add: name_heuristics_def)
  next
    case i
    from image_exclusive [OF i] i assms show ?thesis by (simp add: name_heuristics_def)
  next
    case s
    from status_exclusive [OF s] s assms show ?thesis by (simp add: name_heuristics_def)
  next
    case none
    with assms show ?thesis by (simp add: name_heuristics_def split: if_splits)
  qed
qed

section \<open>The patches of the name heuristics\<close>

lemmas patch_defs =
  id_patch_def created_patch_def updated_patch_def deleted_patch_def secret_patch_def
  email_patch_def name_patch_def description_patch_def image_patch_def status_patch_def

lemmas patch_simps = patch_defs assign_Cons assign_Nil obj_get_obj_set

lemma refineByFieldName_two:
  assumes "2 \<le> length (filter (\<lambda>p. p key) name_heuristics)" and "distinct (map fst defaults)"
  shows "refineByFieldName key defaults = secret_patch (id_patch key defaults)"
  using two_heuristics_match [OF assms(1)] assms(2)
  by (simp add: refineByFieldName_def Let_def apply_if_def spread_empty)

lemma api_key_two: "2 \<le> length (filter (\<lambda>p. p ''apiKey'') name_heuristics)"
  by code_simp

lemma api_key_inferred:
  "inferFieldAffordances ''apiKey'' z_string =
     Inr [(''sortable'', JBool False), (''filterable'', JBool False),
          (''searchable'', JBool False), (''groupable'', JBool False),
          (''editable'', JBool False), (''visible'', JBool False),
          (''readable'', JBool False), (''title'', JStr ''Api Key'')]"
  by code_simp


section \<open>Properties of the inference layers\<close>

lemma getZodBaseType_total: "wrappers_ok n \<Longrightarrow> \<exists>s. getZodBaseType n = Inr s"
proof (induction n rule: getZodBaseType.induct)
  case (1 mn mx m)
  show ?case by simp
next
  case (2 t inner cs f es vs dv mn mx m)
  then show ?case by (cases inner) (auto split: if_splits)
qed

lemma unwrapZodSchema_total:
  "wrappers_ok n \<Longrightarrow> \<exists>t. unwrapZodSchema n = Inr t \<and> is_terminal t"
proof (induction n rule: unwrapZodSchema.induct)
  case (1 mn mx m)
  show ?case by (simp add: is_terminal_def)
next
  case (2 t inner cs f es vs dv mn mx m)
  then show ?case by (cases inner) (auto simp: is_terminal_def split: if_splits)
qed

lemma unwrapZodSchema_terminal: "is_terminal n \<Longrightarrow> unwrapZodSchema n = Inr n"
proof (cases n)
  case (ZNode d mn mx m)
  assume t: "is_terminal n"
  show ?thesis
  proof (cases d)
    case None
    with ZNode show ?thesis by simp
  next
    case (Some dd)
    with ZNode t show ?thesis by (cases dd) (simp add: is_terminal_def)
  qed
qed

lemma spread_type_defaults:
    "spread STRING_FIELD_DEFAULTS [] = STRING_FIELD_DEFAULTS"
    "spread NUMBER_FIELD_DEFAULTS [] = NUMBER_FIELD_DEFAULTS"
    "spread BOOLEAN_FIELD_DEFAULTS [] = BOOLEAN_FIELD_DEFAULTS"
    "spread ENUM_FIELD_DEFAULTS [] = ENUM_FIELD_DEFAULTS"
    "spread DATE_FIELD_DEFAULTS [] = DATE_FIELD_DEFAULTS"
    "spread ARRAY_FIELD_DEFAULTS [] = ARRAY_FIELD_DEFAULTS"
    "spread OBJECT_FIELD_DEFAULTS [] = OBJECT_FIELD_DEFAULTS"
    "spread UNKNOWN_FIELD_DEFAULTS [] = UNKNOWN_FIELD_DEFAULTS"
  by (rule spread_empty, simp add: STRING_FIELD_DEFAULTS_def NUMBER_FIELD_DEFAULTS_def BOOLEAN_FIELD_DEFAULTS_def ENUM_FIELD_DEFAULTS_def DATE_FIELD_DEFAULTS_def ARRAY_FIELD_DEFAULTS_def OBJECT_FIELD_DEFAULTS_def UNKNOWN_FIELD_DEFAULTS_def)+

lemma getTypeDefaults_props:
  "distinct (map fst (getTypeDefaults t)) \<and> obj_get ''visible'' (getTypeDefaults t) = JBool True"
  by (simp add: getTypeDefaults_def spread_type_defaults)
     (simp add: STRING_FIELD_DEFAULTS_def NUMBER_FIELD_DEFAULTS_def BOOLEAN_FIELD_DEFAULTS_def ENUM_FIELD_DEFAULTS_def DATE_FIELD_DEFAULTS_def ARRAY_FIELD_DEFAULTS_def OBJECT_FIELD_DEFAULTS_def UNKNOWN_FIELD_DEFAULTS_def obj_get_def)

lemma check_step_keeps:
  "distinct (map fst r) \<Longrightarrow>
   distinct (map fst (check_step c r)) \<and> obj_get ''visible'' (check_step c r) = obj_get ''visible'' r"
  by (simp add: check_step_def Let_def distinct_assign assign_Cons assign_Nil obj_get_obj_set
      distinct_obj_set)

lemma fold_check_step_keeps:
  "distinct (map fst r) \<Longrightarrow>
   distinct (map fst (fold check_step cs r))
   \<and> obj_get ''visible'' (fold check_step cs r) = obj_get ''visible'' r"
  by (induction cs arbitrary: r) (simp_all add: check_step_keeps)

lemma refine_string_keeps:
  "distinct (map fst r) \<Longrightarrow>
   distinct (map fst (refine_string d r))
   \<and> obj_get ''visible'' (refine_string d r) = obj_get ''visible'' r"
  by (cases "checks d")
     (simp_all add: refine_string_def Let_def fold_check_step_keeps assign_Cons assign_Nil
        obj_get_obj_set distinct_obj_set)

lemma refineByValidations_keeps:
  assumes "distinct (map fst d)" and "refineByValidations schema d = Inr v"
  shows "distinct (map fst v) \<and> obj_get ''visible'' v = obj_get ''visible'' d"
proof (cases "unwrapZodSchema schema")
  case (Inl e)
  with assms show ?thesis by (simp add: refineByValidations_def)
next
  case (Inr u)
  show ?thesis
  proof (cases "zod_def u")
    case None
    with Inr assms show ?thesis by (simp add: refineByValidations_def)
  next
    case (Some dd)
    with Inr assms show ?thesis
      by (auto simp: refineByValidations_def Let_def spread_empty refine_string_keeps
          assign_Cons assign_Nil obj_get_obj_set distinct_obj_set split: if_splits)
  qed
qed

lemma refineByValidations_total:
  assumes "wrappers_ok schema"
  shows "\<exists>v. refineByValidations schema d = Inr v"
proof -
  from unwrapZodSchema_total [OF assms] obtain u where "unwrapZodSchema schema = Inr u" by blast
  then show ?thesis
    by (cases "zod_def u") (simp_all add: refineByValidations_def Let_def)
qed

lemma id_exclusive:
  assumes "ID_PATTERNS key \<or> ID_SUFFIX_PATTERNS key"
  shows "\<not> CREATED_PATTERNS key \<and> \<not> UPDATED_PATTERNS key \<and> \<not> DELETED_PATTERNS key
    \<and> \<not> EMAIL_PATTERNS key \<and> \<not> NAME_PATTERNS key \<and> \<not> DESCRIPTION_PATTERNS key
    \<and> \<not> IMAGE_PATTERNS key \<and> \<not> STATUS_PATTERNS key"
  using assms created_exclusive [of key] updated_exclusive [of key] deleted_exclusive [of key]
    email_exclusive [of key] name_exclusive [of key] description_exclusive [of key]
    image_exclusive [of key] status_exclusive [of key]
  by blast

lemma distinct_apply_if:
    "distinct (map fst r) \<Longrightarrow> distinct (map fst (apply_if c (id_patch key) r))"
    "distinct (map fst r) \<Longrightarrow> distinct (map fst (apply_if c (created_patch) r))"
    "distinct (map fst r) \<Longrightarrow> distinct (map fst (apply_if c (updated_patch) r))"
    "distinct (map fst r) \<Longrightarrow> distinct (map fst (apply_if c (deleted_patch) r))"
    "distinct (map fst r) \<Longrightarrow> distinct (map fst (apply_if c (secret_patch) r))"
    "distinct (map fst r) \<Longrightarrow> distinct (map fst (apply_if c (email_patch) r))"
    "distinct (map fst r) \<Longrightarrow> distinct (map fst (apply_if c (name_patch) r))"
    "distinct (map fst r) \<Longrightarrow> distinct (map fst (apply_if c (description_patch) r))"
    "distinct (map fst r) \<Longrightarrow> distinct (map fst (apply_if c (image_patch) r))"
    "distinct (map fst r) \<Longrightarrow> distinct (map fst (apply_if c (status_patch) r))"
  by (simp_all add: apply_if_def patch_defs distinct_assign)


lemma refineByFieldName_distinct:
  "distinct (map fst d) \<Longrightarrow> distinct (map fst (refineByFieldName key d))"
  by (simp add: refineByFieldName_def Let_def spread_empty distinct_apply_if)




lemma refineByFieldName_id:
  assumes "ID_PATTERNS key \<or> ID_SUFFIX_PATTERNS key" and "distinct (map fst d)"
  shows "refineByFieldName key d = apply_if (SECRET_PATTERNS key) secret_patch (id_patch key d)"
  using id_exclusive [OF assms(1)] assms
  by (simp add: refineByFieldName_def Let_def apply_if_def spread_empty)


section \<open>Properties of inference and resolution without overrides\<close>

lemma title_kept:
  "p \<noteq> ''title'' \<Longrightarrow> obj_get p (if c then obj_set ''title'' v a else a) = obj_get p a"
  by (simp add: obj_get_obj_set)

lemma infer_without_meta:
  assumes "getZodBaseType schema = Inr bt"
    and "refineByValidations schema (getTypeDefaults bt) = Inr v"
    and "node_meta schema = None"
  shows "inferFieldAffordances key schema =
    Inr (if \<not> truthy (obj_get ''title'' (refineByFieldName key v))
         then obj_set ''title'' (JStr (humanizeFieldName key)) (refineByFieldName key v)
         else refineByFieldName key v)"
  using assms by (simp add: inferFieldAffordances_def getZodMeta_def Let_def)

lemma distinct_spread: "distinct (map fst (spread a b))"
  by (simp add: spread_def distinct_assign)

lemma inferFieldAffordances_layers:
  assumes "inferFieldAffordances key schema = Inr ifa"
  obtains bt v where "getZodBaseType schema = Inr bt"
    and "refineByValidations schema (getTypeDefaults bt) = Inr v"
    and "ifa = (let named = refineByFieldName key v;
                    a = (case node_meta schema of
                           None \<Rightarrow> named
                         | Some m \<Rightarrow> spread named (extractAffordancesFromMeta m))
                in if \<not> truthy (obj_get ''title'' a)
                   then obj_set ''title'' (JStr (humanizeFieldName key)) a else a)"
  using assms
  by (auto simp: inferFieldAffordances_def getZodMeta_def Let_def split: sum.splits if_splits)

lemma inferFieldAffordances_distinct:
  assumes "inferFieldAffordances key schema = Inr ifa"
  shows "distinct (map fst ifa)"
proof -
  from assms obtain bt v where v: "refineByValidations schema (getTypeDefaults bt) = Inr v"
    and ifa: "ifa = (let named = refineByFieldName key v;
                    a = (case node_meta schema of
                           None \<Rightarrow> named
                         | Some m \<Rightarrow> spread named (extractAffordancesFromMeta m))
                in if \<not> truthy (obj_get ''title'' a)
                   then obj_set ''title'' (JStr (humanizeFieldName key)) a else a)"
    by (rule inferFieldAffordances_layers)
  from getTypeDefaults_props [of bt] refineByValidations_keeps [OF _ v]
  have "distinct (map fst v)" by simp
  then have "distinct (map fst (refineByFieldName key v))" by (rule refineByFieldName_distinct)
  then show ?thesis
    unfolding ifa by (cases "node_meta schema") (simp_all add: Let_def distinct_obj_set distinct_spread)
qed

lemma inferFieldAffordances_total:
  assumes "wrappers_ok schema"
  shows "\<exists>ifa. inferFieldAffordances key schema = Inr ifa"
proof -
  from getZodBaseType_total [OF assms] obtain bt where bt: "getZodBaseType schema = Inr bt"
    by blast
  from refineByValidations_total [OF assms] obtain v
    where v: "refineByValidations schema (getTypeDefaults bt) = Inr v" by blast
  show ?thesis by (simp add: inferFieldAffordances_def bt v Let_def)
qed

lemma explicit_overrides_none:
    "explicit_overrides JUndefined key = []"
    "explicit_overrides (JObj []) key = []"
  by (simp_all add: explicit_overrides_def obj_get_def coalesce_def)

lemma resolve_no_overrides:
  assumes "inferFieldAffordances key schema = Inr ifa" and "getZodBaseType schema = Inr tag"
    and "explicit_overrides e key = []"
  shows "resolveFieldAffordance e key schema =
    Inr (assign ifa
      [(''title'', coalesce (obj_get ''title'' ifa) (JStr (humanizeFieldName key))),
       (''zodType'', JStr tag)])"
  using assms inferFieldAffordances_distinct [OF assms(1)]
  by (simp add: resolveFieldAffordance_def Let_def spread_empty)

lemma resolved_props:
  "obj_get p (assign ifa [(''title'', t), (''zodType'', z)])
     = (if p = ''zodType'' then z else if p = ''title'' then t else obj_get p ifa)"
  by (simp add: assign_Cons assign_Nil obj_get_obj_set)

lemma identifier_inferred:
  assumes "ID_PATTERNS key \<or> ID_SUFFIX_PATTERNS key"
    and "wrappers_ok schema" and "node_meta schema = None"
  shows "\<exists>fa. inferFieldAffordances key schema = Inr fa
    \<and> obj_get ''editable'' fa = JBool False
    \<and> obj_get ''searchable'' fa = JBool False
    \<and> obj_get ''filterable'' fa = (if SECRET_PATTERNS key then JBool False else JStr ''exact'')
    \<and> obj_get ''visible'' fa
        = (if key = ''id'' \<or> SECRET_PATTERNS key then JBool False else JBool True)"
proof -
  from getZodBaseType_total [OF assms(2)] obtain bt where bt: "getZodBaseType schema = Inr bt"
    by blast
  from refineByValidations_total [OF assms(2)] obtain v
    where v: "refineByValidations schema (getTypeDefaults bt) = Inr v" by blast
  from getTypeDefaults_props [of bt] refineByValidations_keeps [OF _ v]
  have dv: "distinct (map fst v)" and vis: "obj_get ''visible'' v = JBool True" by simp_all
  have named: "refineByFieldName key v
      = apply_if (SECRET_PATTERNS key) secret_patch (id_patch key v)"
    using assms(1) dv by (rule refineByFieldName_id)
  show ?thesis
    unfolding infer_without_meta [OF bt v assms(3)] named
    by (simp add: title_kept apply_if_def patch_simps vis)
qed

section \<open>Properties of nodes with an unrecognized type\<close>


lemma unknown_not_known: "''unknown'' \<notin> set known_type_tags"
  by (simp add: known_type_tags_def)





section \<open>Properties of diff mode\<close>

lemma nf_obj_set:
  "nan_free r \<Longrightarrow> v \<noteq> JNaN \<Longrightarrow> nan_free (obj_set k v r)"
  by (induction r) auto

lemma nf_assign:
  "nan_free t \<Longrightarrow> nan_free s \<Longrightarrow> nan_free (assign t s)"
proof (induction s arbitrary: t)
  case Nil
  then show ?case by (simp add: assign_Nil)
next
  case (Cons p s)
  obtain k v where p: "p = (k, v)" by (cases p)
  from Cons.prems have "v \<noteq> JNaN" "nan_free s" unfolding p by simp_all
  with Cons.prems(1) show ?case
    unfolding p assign_Cons by (intro Cons.IH nf_obj_set)
qed

lemma nf_spread:
  "nan_free a \<Longrightarrow> nan_free b \<Longrightarrow> nan_free (spread a b)"
  unfolding spread_def by (intro nf_assign) simp_all

lemma nf_obj_get: "nan_free r \<Longrightarrow> obj_get k r \<noteq> JNaN"
  by (induction r) (auto simp: obj_get_def)

lemma nf_coalesce: "a \<noteq> JNaN \<Longrightarrow> b \<noteq> JNaN \<Longrightarrow> coalesce a b \<noteq> JNaN"
  by (simp add: coalesce_def)

lemma nf_type_defaults: "nan_free (getTypeDefaults t)"
  by (simp add: getTypeDefaults_def spread_type_defaults)
     (simp add: STRING_FIELD_DEFAULTS_def NUMBER_FIELD_DEFAULTS_def BOOLEAN_FIELD_DEFAULTS_def ENUM_FIELD_DEFAULTS_def DATE_FIELD_DEFAULTS_def ARRAY_FIELD_DEFAULTS_def OBJECT_FIELD_DEFAULTS_def UNKNOWN_FIELD_DEFAULTS_def)

lemma nf_check_step: "nan_free r \<Longrightarrow> nan_free (check_step c r)"
  by (simp add: check_step_def Let_def nf_assign)

lemma nf_fold_check_step:
  "nan_free r \<Longrightarrow> nan_free (fold check_step cs r)"
  by (induction cs arbitrary: r) (simp_all add: nf_check_step)

lemma nf_refine_string: "nan_free r \<Longrightarrow> nan_free (refine_string d r)"
  by (cases "checks d") (simp_all add: refine_string_def Let_def nf_assign nf_fold_check_step)

lemma nf_refineByValidations:
  assumes "nan_free d" and "refineByValidations schema d = Inr v"
  shows "nan_free v"
proof (cases "unwrapZodSchema schema")
  case (Inl e)
  with assms show ?thesis by (simp add: refineByValidations_def)
next
  case (Inr u)
  show ?thesis
  proof (cases "zod_def u")
    case None
    with Inr assms show ?thesis by (simp add: refineByValidations_def)
  next
    case (Some dd)
    from assms(1) have nf: "nan_free (spread d [])" by (simp add: nf_spread)
    from Some Inr
    have "refineByValidations schema d = Inr (if def_type dd = Some ''boolean'' \<and> has_defaultValue dd
        then assign (if def_type dd = Some ''string'' then refine_string dd (spread d [])
                     else spread d []) [(''editWidget'', JStr ''switch'')]
        else (if def_type dd = Some ''string'' then refine_string dd (spread d [])
              else spread d []))"
      by (simp add: refineByValidations_def Let_def)
    with assms(2)
    have v: "v = (if def_type dd = Some ''boolean'' \<and> has_defaultValue dd
        then assign (if def_type dd = Some ''string'' then refine_string dd (spread d [])
                     else spread d []) [(''editWidget'', JStr ''switch'')]
        else (if def_type dd = Some ''string'' then refine_string dd (spread d [])
              else spread d []))"
      by simp
    show ?thesis
      unfolding v using nf by (simp add: nf_refine_string nf_assign)
  qed
qed

lemma nf_apply_if:
    "nan_free r \<Longrightarrow> nan_free (apply_if c (id_patch key) r)"
    "nan_free r \<Longrightarrow> nan_free (apply_if c created_patch r)"
    "nan_free r \<Longrightarrow> nan_free (apply_if c updated_patch r)"
    "nan_free r \<Longrightarrow> nan_free (apply_if c deleted_patch r)"
    "nan_free r \<Longrightarrow> nan_free (apply_if c secret_patch r)"
    "nan_free r \<Longrightarrow> nan_free (apply_if c email_patch r)"
    "nan_free r \<Longrightarrow> nan_free (apply_if c name_patch r)"
    "nan_free r \<Longrightarrow> nan_free (apply_if c description_patch r)"
    "nan_free r \<Longrightarrow> nan_free (apply_if c image_patch r)"
    "nan_free r \<Longrightarrow> nan_free (apply_if c status_patch r)"
  using nf_obj_get [of r] nf_coalesce
  by (simp_all add: apply_if_def patch_defs nf_assign not_sym)

lemma nf_refineByFieldName:
  "nan_free d \<Longrightarrow> nan_free (refineByFieldName key d)"
  by (simp add: refineByFieldName_def Let_def nf_spread nf_apply_if)

lemma nf_inferFieldAffordances:
  assumes "inferFieldAffordances key schema = Inr ifa"
    and "case node_meta schema of None \<Rightarrow> True
         | Some m \<Rightarrow> nan_free (extractAffordancesFromMeta m)"
  shows "nan_free ifa"
proof -
  from assms(1) obtain bt v where v: "refineByValidations schema (getTypeDefaults bt) = Inr v"
    and ifa: "ifa = (let named = refineByFieldName key v;
                    a = (case node_meta schema of
                           None \<Rightarrow> named
                         | Some m \<Rightarrow> spread named (extractAffordancesFromMeta m))
                in if \<not> truthy (obj_get ''title'' a)
                   then obj_set ''title'' (JStr (humanizeFieldName key)) a else a)"
    by (rule inferFieldAffordances_layers)
  from nf_type_defaults v have "nan_free v" by (rule nf_refineByValidations)
  then have "nan_free (refineByFieldName key v)" by (rule nf_refineByFieldName)
  with assms(2) show ?thesis
    unfolding ifa by (cases "node_meta schema") (simp_all add: Let_def nf_obj_set nf_spread)
qed

lemma valueEqual_refl: "x \<noteq> JNaN \<Longrightarrow> valueEqual stringify x x"
  by (cases x) (simp_all add: valueEqual_def)

lemma fold_unchanged: "(\<And>x. x \<in> set xs \<Longrightarrow> f x a = a) \<Longrightarrow> fold f xs a = a"
  by (induction xs) simp_all

lemma zodType_not_emitted: "''zodType'' \<notin> set FIELD_PROP_ORDER"
  by (simp add: FIELD_PROP_ORDER_def)

lemma diff_props_empty:
  assumes ifa: "inferFieldAffordances key schema = Inr ifa" and nf: "nan_free ifa"
    and fa: "fa = assign ifa
      [(''title'', coalesce (obj_get ''title'' ifa) (JStr (humanizeFieldName key))),
       (''zodType'', z)]"
  shows "diff_props stringify key fa schema = Inr []"
proof -
  let ?t = "coalesce (obj_get ''title'' ifa) (JStr (humanizeFieldName key))"
  have t: "?t \<noteq> JNaN" using nf_obj_get [OF nf] by (simp add: nf_coalesce)
  have same: "valueEqual stringify (obj_get pname fa)
        (if pname = ''title'' then ?t else obj_get pname ifa)"
    if "pname \<in> set FIELD_PROP_ORDER" for pname
  proof -
    from that zodType_not_emitted have "pname \<noteq> ''zodType''" by blast
    then have "obj_get pname fa = (if pname = ''title'' then ?t else obj_get pname ifa)"
      unfolding fa by (simp add: resolved_props)
    then show ?thesis using t nf_obj_get [OF nf] by (simp add: valueEqual_refl)
  qed
  show ?thesis
    unfolding diff_props_def ifa
    by (simp add: Let_def) (rule fold_unchanged, simp add: same)
qed

lemma resolveAllFields_append:
  assumes "distinct (map fst acc @ map fst shape)"
    and "list_all (\<lambda>(key, schema). wrappers_ok schema) shape"
    and "\<And>key. explicit_overrides e key = []"
  shows "\<exists>fas. resolveAllFields e shape acc = Inr (acc @ fas)
    \<and> list_all (\<lambda>(key, fa). \<exists>schema ifa z. (key, schema) \<in> set shape
            \<and> inferFieldAffordances key schema = Inr ifa
            \<and> fa = assign ifa
                 [(''title'', coalesce (obj_get ''title'' ifa) (JStr (humanizeFieldName key))),
                  (''zodType'', z)]) fas"
  using assms(1,2)
proof (induction shape arbitrary: acc)
  case Nil
  then show ?case by simp
next
  case (Cons p rest)
  obtain key schema where p: "p = (key, schema)" by (cases p)
  from Cons.prems(2) have ok: "wrappers_ok schema" and oks: "list_all (\<lambda>(key, schema). wrappers_ok schema) rest"
    unfolding p by simp_all
  from inferFieldAffordances_total [OF ok] obtain ifa
    where ifa: "inferFieldAffordances key schema = Inr ifa" by blast
  from getZodBaseType_total [OF ok] obtain tag where tag: "getZodBaseType schema = Inr tag"
    by blast
  let ?fa = "assign ifa
      [(''title'', coalesce (obj_get ''title'' ifa) (JStr (humanizeFieldName key))),
       (''zodType'', JStr tag)]"
  let ?stored = "if key = ''__proto__'' then [] else [(key, ?fa)]"
  have res: "resolveFieldAffordance e key schema = Inr ?fa"
    using ifa tag assms(3) by (rule resolve_no_overrides)
  from Cons.prems(1) have fresh: "key \<notin> fst ` set acc" unfolding p by auto
  then have set: "obj_set key ?fa acc = acc @ [(key, ?fa)]" by (rule obj_set_fresh)
  from Cons.prems(1) have "distinct (map fst (acc @ ?stored) @ map fst rest)"
    unfolding p by auto
  from Cons.IH [OF this oks] obtain fas
    where r: "resolveAllFields e rest (acc @ ?stored) = Inr ((acc @ ?stored) @ fas)"
      and l: "list_all (\<lambda>(key, fa). \<exists>schema ifa z. (key, schema) \<in> set rest
            \<and> inferFieldAffordances key schema = Inr ifa
            \<and> fa = assign ifa
                 [(''title'', coalesce (obj_get ''title'' ifa) (JStr (humanizeFieldName key))),
                  (''zodType'', z)]) fas"
    by blast
  have "resolveAllFields e (p # rest) acc = resolveAllFields e rest (acc @ ?stored)"
    unfolding p by (simp add: res set)
  then have "resolveAllFields e (p # rest) acc = Inr (acc @ (?stored @ fas))"
    using r by simp
  moreover have "list_all (\<lambda>(key, fa). \<exists>schema ifa z. (key, schema) \<in> set (p # rest)
            \<and> inferFieldAffordances key schema = Inr ifa
            \<and> fa = assign ifa
                 [(''title'', coalesce (obj_get ''title'' ifa) (JStr (humanizeFieldName key))),
                  (''zodType'', z)]) (?stored @ fas)"
  proof -
    have "\<exists>schema' ifa' z. (key, schema') \<in> set (p # rest)
            \<and> inferFieldAffordances key schema' = Inr ifa'
            \<and> ?fa = assign ifa'
                 [(''title'', coalesce (obj_get ''title'' ifa') (JStr (humanizeFieldName key))),
                  (''zodType'', z)]"
      using ifa unfolding p by (intro exI [of _ schema] exI [of _ ifa] exI [of _ "JStr tag"]) simp
    moreover from l have "list_all (\<lambda>(key, fa). \<exists>schema ifa z. (key, schema) \<in> set (p # rest)
            \<and> inferFieldAffordances key schema = Inr ifa
            \<and> fa = assign ifa
                 [(''title'', coalesce (obj_get ''title'' ifa) (JStr (humanizeFieldName key))),
                  (''zodType'', z)]) fas"
      by (rule list.pred_mono_strong) auto
    ultimately show ?thesis by simp
  qed
  ultimately show ?case by blast
qed

lemma fieldsObject_empty:
  assumes "list_all (\<lambda>(key, fa). \<exists>schema. map_of (schema_shape c) key = Some schema
             \<and> diff_props stringify key fa schema = Inr []) fas"
  shows "fieldsObject stringify c True fas [] = Inr []"
  using assms by (induction fas) auto

lemma no_fields_key:
  assumes "buildFieldsObject stringify c True = Inr []"
  shows "\<exists>cfg. buildConfigObject stringify c True = Inr cfg \<and> \<not> obj_has ''fields'' cfg"
  using assms
  by (simp add: buildConfigObject_def Let_def obj_has_def map_of_obj_set assign_Cons assign_Nil)

section \<open>Two matching name heuristics\<close>

text \<open>
  Claim C1: a field name that matches two of the ten name heuristics receives the union
  of both patches, and where both patches set a property the later-listed heuristic
  wins. The patterns leave one way to match two heuristics: an identifier suffix
  together with a secret name, as \<^verbatim>\<open>apiKey\<close> does. For every such name the result of
  \<^verbatim>\<open>refineByFieldName\<close> is the identifier patch followed by the secret patch:
  \<^verbatim>\<open>editable\<close> is false (identifier patch only), \<^verbatim>\<open>readable\<close> and \<^verbatim>\<open>sortable\<close> are false
  (secret patch only), \<^verbatim>\<open>searchable\<close> is false (both), \<^verbatim>\<open>filterable\<close> is false (the
  secret patch, listed later, over the identifier patch's \<^verbatim>\<open>'exact'\<close>), \<^verbatim>\<open>visible\<close> is
  false, and every other property is the incoming one. \<open>defaults\<close> is any incoming
  record (the result of the type and validation layers); the property names of an
  object are distinct.
\<close>

theorem name_heuristics_union_later_wins:
  assumes "2 \<le> length (filter (\<lambda>p. p key) name_heuristics)"
    and "distinct (map fst defaults)"
  shows "(ID_PATTERNS key \<or> ID_SUFFIX_PATTERNS key) \<and> SECRET_PATTERNS key
    \<and> refineByFieldName key defaults = secret_patch (id_patch key defaults)
    \<and> obj_get ''filterable'' (id_patch key defaults) = JStr ''exact''
    \<and> obj_get ''filterable'' (refineByFieldName key defaults) = JBool False
    \<and> obj_get ''editable'' (refineByFieldName key defaults) = JBool False
    \<and> obj_get ''searchable'' (refineByFieldName key defaults) = JBool False
    \<and> obj_get ''readable'' (refineByFieldName key defaults) = JBool False
    \<and> obj_get ''sortable'' (refineByFieldName key defaults) = JBool False
    \<and> obj_get ''visible'' (refineByFieldName key defaults) = JBool False
    \<and> (\<forall>p. p \<notin> set [''editable'', ''visible'', ''filterable'', ''searchable'', ''readable'',
                       ''sortable'']
           \<longrightarrow> obj_get p (refineByFieldName key defaults) = obj_get p defaults)"
  using two_heuristics_match [OF assms(1)]
  by (simp add: refineByFieldName_two [OF assms] patch_simps)

text \<open>
  At \<^verbatim>\<open>apiKey\<close>, on the defaults of a string and through the whole inference of
  \<^verbatim>\<open>z.string()\<close>: \<^verbatim>\<open>filterable\<close> resolves to false.
\<close>

theorem name_heuristics_union_later_wins_witness:
  "ID_SUFFIX_PATTERNS ''apiKey'' \<and> SECRET_PATTERNS ''apiKey''
   \<and> obj_get ''filterable'' (id_patch ''apiKey'' STRING_FIELD_DEFAULTS) = JStr ''exact''
   \<and> obj_get ''filterable'' (refineByFieldName ''apiKey'' STRING_FIELD_DEFAULTS) = JBool False
   \<and> (\<exists>fa. inferFieldAffordances ''apiKey'' z_string = Inr fa
         \<and> obj_get ''filterable'' fa = JBool False)"
proof -
  have d: "distinct (map fst STRING_FIELD_DEFAULTS)" by (simp add: STRING_FIELD_DEFAULTS_def)
  have s: "ID_SUFFIX_PATTERNS ''apiKey''" by code_simp
  have e: "\<exists>fa. inferFieldAffordances ''apiKey'' z_string = Inr fa
         \<and> obj_get ''filterable'' fa = JBool False"
    by (simp add: api_key_inferred obj_get_def)
  from name_heuristics_union_later_wins [OF api_key_two d] s e
  show ?thesis by blast
qed


section \<open>Identifier-like field names\<close>

text \<open>
  Claim C2, as stated: every field with an identifier-like name resolves, without
  overrides, to a hidden, non-editable, exact-match filterable field. The identifier
  block of \<^verbatim>\<open>refineByFieldName\<close> sets \<^verbatim>\<open>visible\<close> to false only when the key is
  exactly \<^verbatim>\<open>id\<close> (\<^verbatim>\<open>refined.visible = key === 'id' ? false : refined.visible\<close>). The
  field \<^verbatim>\<open>userId: z.string()\<close> matches the identifier suffix and resolves to a record
  with \<^verbatim>\<open>visible\<close> true and no \<^verbatim>\<open>hidden\<close> property.
\<close>

theorem user_id_stays_visible:
  "ID_SUFFIX_PATTERNS ''userId''
   \<and> resolveFieldAffordance JUndefined ''userId'' z_string =
       Inr [(''sortable'', JStr ''both''), (''filterable'', JStr ''exact''),
            (''searchable'', JBool False), (''groupable'', JBool False),
            (''editable'', JBool False), (''visible'', JBool True),
            (''title'', JStr ''User Id''), (''zodType'', JStr ''string'')]"
  by code_simp

text \<open>
  Claim C2, amended: every field with an identifier-like name (an exact identifier name,
  or an identifier suffix) on a schema without metadata resolves, without overrides, to
  a field that is non-editable and not searchable; it is exact-match filterable unless
  the name is also a secret name (as \<^verbatim>\<open>apiKey\<close>), where \<^verbatim>\<open>filterable\<close> is false. The key
  \<^verbatim>\<open>id\<close> is hidden (\<^verbatim>\<open>visible\<close> false). A name that is identifier-like by its suffix
  only, as \<^verbatim>\<open>userId\<close>, is not hidden by the identifier heuristic: its \<^verbatim>\<open>visible\<close> is true,
  unless the name is also a secret name. Nothing is said here of the visibility of the
  other exact identifier names. Resolution returns for every schema whose wrapper
  layers carry their inner node.
\<close>

theorem identifier_fields_not_editable:
  assumes "ID_PATTERNS key \<or> ID_SUFFIX_PATTERNS key"
    and "wrappers_ok schema" and "node_meta schema = None"
  shows "\<exists>fa. resolveFieldAffordance JUndefined key schema = Inr fa
    \<and> obj_get ''editable'' fa = JBool False
    \<and> obj_get ''searchable'' fa = JBool False
    \<and> obj_get ''filterable'' fa = (if SECRET_PATTERNS key then JBool False else JStr ''exact'')
    \<and> (key = ''id'' \<longrightarrow> obj_get ''visible'' fa = JBool False)
    \<and> (\<not> ID_PATTERNS key \<longrightarrow>
          obj_get ''visible'' fa = (if SECRET_PATTERNS key then JBool False else JBool True))"
proof -
  from identifier_inferred [OF assms] obtain ifa
    where ifa: "inferFieldAffordances key schema = Inr ifa"
      and props: "obj_get ''editable'' ifa = JBool False"
        "obj_get ''searchable'' ifa = JBool False"
        "obj_get ''filterable'' ifa = (if SECRET_PATTERNS key then JBool False else JStr ''exact'')"
        "obj_get ''visible'' ifa
           = (if key = ''id'' \<or> SECRET_PATTERNS key then JBool False else JBool True)"
    by blast
  have "\<not> ID_PATTERNS key \<Longrightarrow> key \<noteq> ''id''"
  proof
    assume "\<not> ID_PATTERNS key" and "key = ''id''"
    moreover have "ID_PATTERNS ''id''" by code_simp
    ultimately show False by simp
  qed
  with props(4) have vis: "key = ''id'' \<longrightarrow> obj_get ''visible'' ifa = JBool False"
      "\<not> ID_PATTERNS key \<longrightarrow>
          obj_get ''visible'' ifa = (if SECRET_PATTERNS key then JBool False else JBool True)"
    by auto
  from getZodBaseType_total [OF assms(2)] obtain tag where tag: "getZodBaseType schema = Inr tag"
    by blast
  show ?thesis
    unfolding resolve_no_overrides [OF ifa tag explicit_overrides_none(1)]
    using vis by (simp add: resolved_props props(1,2,3))
qed

text \<open>
  At the field \<^verbatim>\<open>id: z.string().optional()\<close>: not editable, not searchable, exact-match
  filterable, hidden. At the field \<^verbatim>\<open>userId: z.string()\<close>: the same, and visible.
\<close>

theorem identifier_fields_not_editable_witness:
  "(ID_PATTERNS ''id'' \<or> ID_SUFFIX_PATTERNS ''id'')
   \<and> wrappers_ok (z_optional z_string) \<and> node_meta (z_optional z_string) = None
   \<and> (\<exists>fa. resolveFieldAffordance JUndefined ''id'' (z_optional z_string) = Inr fa
         \<and> obj_get ''editable'' fa = JBool False
         \<and> obj_get ''searchable'' fa = JBool False
         \<and> obj_get ''filterable'' fa = JStr ''exact''
         \<and> obj_get ''visible'' fa = JBool False)
   \<and> (ID_PATTERNS ''userId'' \<or> ID_SUFFIX_PATTERNS ''userId'')
   \<and> \<not> ID_PATTERNS ''userId'' \<and> \<not> SECRET_PATTERNS ''userId''
   \<and> wrappers_ok z_string \<and> node_meta z_string = None
   \<and> (\<exists>fa. resolveFieldAffordance JUndefined ''userId'' z_string = Inr fa
         \<and> obj_get ''editable'' fa = JBool False
         \<and> obj_get ''searchable'' fa = JBool False
         \<and> obj_get ''filterable'' fa = JStr ''exact''
         \<and> obj_get ''visible'' fa = JBool True)"
proof -
  have a: "ID_PATTERNS ''id'' \<or> ID_SUFFIX_PATTERNS ''id''" by code_simp
  have b: "wrappers_ok (z_optional z_string)" by code_simp
  have c: "node_meta (z_optional z_string) = None" by code_simp
  have d: "\<not> SECRET_PATTERNS ''id''" by code_simp
  have a': "ID_PATTERNS ''userId'' \<or> ID_SUFFIX_PATTERNS ''userId''" by code_simp
  have b': "wrappers_ok z_string" by code_simp
  have c': "node_meta z_string = None" by code_simp
  have d': "\<not> SECRET_PATTERNS ''userId''" by code_simp
  have e': "\<not> ID_PATTERNS ''userId''" by code_simp
  from identifier_fields_not_editable [OF a b c] d
  have one: "\<exists>fa. resolveFieldAffordance JUndefined ''id'' (z_optional z_string) = Inr fa
         \<and> obj_get ''editable'' fa = JBool False
         \<and> obj_get ''searchable'' fa = JBool False
         \<and> obj_get ''filterable'' fa = JStr ''exact''
         \<and> obj_get ''visible'' fa = JBool False"
    by (elim exE conjE) (intro exI conjI, simp_all)
  from identifier_fields_not_editable [OF a' b' c'] d' e'
  have two: "\<exists>fa. resolveFieldAffordance JUndefined ''userId'' z_string = Inr fa
         \<and> obj_get ''editable'' fa = JBool False
         \<and> obj_get ''searchable'' fa = JBool False
         \<and> obj_get ''filterable'' fa = JStr ''exact''
         \<and> obj_get ''visible'' fa = JBool True"
    by (elim exE conjE) (intro exI conjI, simp_all)
  from a b c one a' e' d' b' c' two show ?thesis by (intro conjI)
qed

section \<open>Diff mode without overrides\<close>

text \<open>
  Claim C3: for every collection definition built from a schema with no explicit
  per-field overrides in the config, the config object of \<^verbatim>\<open>toCode\<close> in diff mode has no
  \<^verbatim>\<open>fields\<close> entry. Diff mode compares each resolved property with a fresh inference
  through \<^verbatim>\<open>valueEqual\<close>, whose first test is \<^verbatim>\<open>a === b\<close> and whose last line returns false
  for two values that are not objects: \<^verbatim>\<open>valueEqual(NaN, NaN)\<close> is false. For the schema
  \<^verbatim>\<open>z.object({ rank: z.number().meta({ order: NaN }) })\<close> and no config, the inferred and
  the resolved \<^verbatim>\<open>order\<close> are both the metadata's \<^verbatim>\<open>NaN\<close>, and the config object has the
  entry \<^verbatim>\<open>fields: { rank: { order: NaN } }\<close>.
\<close>

theorem nan_metadata_emits_fields:
  "(case defineCollection nan_order_shape None of
      Inl e \<Rightarrow> Inl e
    | Inr c \<Rightarrow> map_sum id (obj_get ''fields'') (buildConfigObject (\<lambda>v. v) c True))
     = Inr (JObj [(''rank'', JObj [(''order'', JNaN)])])
   \<and> \<not> valueEqual (\<lambda>v. v) JNaN JNaN"
  by code_simp

text \<open>
  Apart from \<^verbatim>\<open>NaN\<close> the property of claim C3 holds. For every schema whose fields have
  distinct names, whose wrapper layers carry their inner node and whose metadata
  contributes no \<^verbatim>\<open>NaN\<close> value to the affordances, and every config whose \<^verbatim>\<open>fields\<close> is
  absent or empty: \<^verbatim>\<open>defineCollection\<close> returns, diff mode finds no differing property in
  any field, and the config object has no \<^verbatim>\<open>fields\<close> entry. \<open>stringify\<close> is any
  \<^verbatim>\<open>JSON.stringify\<close>.
\<close>

theorem diff_only_emits_no_fields:
  assumes "distinct (map fst shape)"
    and "list_all (\<lambda>(key, schema). wrappers_ok schema
           \<and> (case node_meta schema of None \<Rightarrow> True
                | Some m \<Rightarrow> nan_free (extractAffordancesFromMeta m))) shape"
    and "(case config of None \<Rightarrow> JUndefined | Some cf \<Rightarrow> cfg_fields cf) = JUndefined
       \<or> (case config of None \<Rightarrow> JUndefined | Some cf \<Rightarrow> cfg_fields cf) = JObj []"
  shows "\<exists>c cfg. defineCollection shape config = Inr c
    \<and> buildFieldsObject stringify c True = Inr []
    \<and> buildConfigObject stringify c True = Inr cfg
    \<and> \<not> obj_has ''fields'' cfg"
proof -
  let ?e = "case config of None \<Rightarrow> JUndefined | Some cf \<Rightarrow> cfg_fields cf"
  have ov: "explicit_overrides ?e key = []" for key
    using assms(3) explicit_overrides_none [of key] by auto
  from assms(2) have oks: "list_all (\<lambda>(key, schema). wrappers_ok schema) shape"
    by (rule list.pred_mono_strong) auto
  from assms(1) have "distinct (map fst [] @ map fst shape)" by simp
  from resolveAllFields_append [OF this oks ov] obtain fas
    where r: "resolveAllFields ?e shape [] = Inr fas"
      and l: "list_all (\<lambda>(key, fa). \<exists>schema ifa z. (key, schema) \<in> set shape
            \<and> inferFieldAffordances key schema = Inr ifa
            \<and> fa = assign ifa
                 [(''title'', coalesce (obj_get ''title'' ifa) (JStr (humanizeFieldName key))),
                  (''zodType'', z)]) fas"
    by auto
  from r obtain c where c: "defineCollection shape config = Inr c"
    and sh: "schema_shape c = shape" and fs: "fieldAffordances c = fas"
    by (simp add: defineCollection_def resolveAllFieldAffordances_def Let_def)
  from l have "list_all (\<lambda>(key, fa). \<exists>schema. map_of (schema_shape c) key = Some schema
             \<and> diff_props stringify key fa schema = Inr []) fas"
  proof (rule list.pred_mono_strong)
    fix x
    assume "x \<in> set fas"
      and x: "case x of (key, fa) \<Rightarrow> \<exists>schema ifa z. (key, schema) \<in> set shape
            \<and> inferFieldAffordances key schema = Inr ifa
            \<and> fa = assign ifa
                 [(''title'', coalesce (obj_get ''title'' ifa) (JStr (humanizeFieldName key))),
                  (''zodType'', z)]"
    obtain key fa where xp: "x = (key, fa)" by (cases x)
    from x obtain schema ifa z where m: "(key, schema) \<in> set shape"
      and ifa: "inferFieldAffordances key schema = Inr ifa"
      and fa: "fa = assign ifa
                 [(''title'', coalesce (obj_get ''title'' ifa) (JStr (humanizeFieldName key))),
                  (''zodType'', z)]"
      unfolding xp by auto
    from assms(1) m have look: "map_of shape key = Some schema" by (rule map_of_is_SomeI)
    from assms(2) m have "case node_meta schema of None \<Rightarrow> True
         | Some m \<Rightarrow> nan_free (extractAffordancesFromMeta m)"
      by (auto simp: list_all_iff)
    with ifa have "nan_free ifa" by (rule nf_inferFieldAffordances)
    with ifa have "diff_props stringify key fa schema = Inr []" using fa by (rule diff_props_empty)
    with look show "case x of (key, fa) \<Rightarrow> \<exists>schema. map_of (schema_shape c) key = Some schema
             \<and> diff_props stringify key fa schema = Inr []"
      unfolding xp sh by simp
  qed
  then have "fieldsObject stringify c True fas [] = Inr []" by (rule fieldsObject_empty)
  then have b: "buildFieldsObject stringify c True = Inr []"
    by (simp add: buildFieldsObject_def fs)
  from no_fields_key [OF b] c b show ?thesis by blast
qed

text \<open>At \<^verbatim>\<open>z.object({ id: z.string(), name: z.string(), notes: z.string() })\<close>, no config.\<close>

theorem diff_only_emits_no_fields_witness:
  "distinct (map fst contact_shape)
   \<and> list_all (\<lambda>(key, schema). wrappers_ok schema
           \<and> (case node_meta schema of None \<Rightarrow> True
                | Some m \<Rightarrow> nan_free (extractAffordancesFromMeta m))) contact_shape
   \<and> (\<exists>c cfg. defineCollection contact_shape None = Inr c
         \<and> buildFieldsObject (\<lambda>v. v) c True = Inr []
         \<and> buildConfigObject (\<lambda>v. v) c True = Inr cfg
         \<and> \<not> obj_has ''fields'' cfg)"
proof -
  have a: "distinct (map fst contact_shape)" by code_simp
  have b: "list_all (\<lambda>(key, schema). wrappers_ok schema
           \<and> (case node_meta schema of None \<Rightarrow> True
                | Some m \<Rightarrow> nan_free (extractAffordancesFromMeta m))) contact_shape"
    by code_simp
  from diff_only_emits_no_fields [OF a b, of None "\<lambda>v. v"] a b show ?thesis by simp
qed

section \<open>Shorthand normalization of pagination and search\<close>

text \<open>
  Claim C4, as stated: the resolved collection affordances never expose a bare boolean
  for \<^verbatim>\<open>pagination\<close>. The config \<^verbatim>\<open>{ pagination: false }\<close> resolves to the bare boolean
  \<^verbatim>\<open>false\<close>: only \<^verbatim>\<open>true\<close> and objects are normalized.
\<close>

theorem bare_false_pagination:
  "obj_get ''pagination'' (resolveCollectionAffordances (JObj [(''pagination'', JBool False)]))
     = JBool False
   \<and> typeof (obj_get ''pagination''
        (resolveCollectionAffordances (JObj [(''pagination'', JBool False)]))) = ''boolean''"
  by code_simp

text \<open>
  Claim C4, amended: the resolved collection affordances never expose a bare \<^verbatim>\<open>true\<close>
  for \<^verbatim>\<open>pagination\<close> or \<^verbatim>\<open>search\<close>. \<^verbatim>\<open>true\<close> normalizes to the full default object; a
  partial object is merged over the full default property by property (a property of
  the partial object wins, every other property is the default's); \<^verbatim>\<open>false\<close> passes
  through unchanged. \<open>ps\<close> are the properties of the config's \<^verbatim>\<open>affordances\<close> object; the
  property names of an object are distinct.
\<close>

theorem shorthand_normalization:
  assumes "distinct (map fst ps)"
  shows "obj_get ''pagination'' (resolveCollectionAffordances (JObj ps)) \<noteq> JBool True
    \<and> obj_get ''search'' (resolveCollectionAffordances (JObj ps)) \<noteq> JBool True
    \<and> (obj_get ''pagination'' ps = JBool True \<longrightarrow>
         obj_get ''pagination'' (resolveCollectionAffordances (JObj ps)) = JObj DEFAULT_PAGINATION)
    \<and> (obj_get ''search'' ps = JBool True \<longrightarrow>
         obj_get ''search'' (resolveCollectionAffordances (JObj ps)) = JObj DEFAULT_SEARCH)
    \<and> (\<forall>p. obj_get ''pagination'' ps = JObj p \<and> distinct (map fst p) \<longrightarrow>
         (\<exists>q. obj_get ''pagination'' (resolveCollectionAffordances (JObj ps)) = JObj q
            \<and> (\<forall>k. obj_get k q =
                  (if k \<in> fst ` set p then obj_get k p else obj_get k DEFAULT_PAGINATION))))
    \<and> (\<forall>p. obj_get ''search'' ps = JObj p \<and> distinct (map fst p) \<longrightarrow>
         (\<exists>q. obj_get ''search'' (resolveCollectionAffordances (JObj ps)) = JObj q
            \<and> (\<forall>k. obj_get k q =
                  (if k \<in> fst ` set p then obj_get k p else obj_get k DEFAULT_SEARCH))))
    \<and> (obj_get ''pagination'' ps = JBool False \<longrightarrow>
         obj_get ''pagination'' (resolveCollectionAffordances (JObj ps)) = JBool False)
    \<and> (obj_get ''search'' ps = JBool False \<longrightarrow>
         obj_get ''search'' (resolveCollectionAffordances (JObj ps)) = JBool False)"
proof -
  have has: "\<And>k v. obj_get k ps = v \<Longrightarrow> v \<noteq> JUndefined \<Longrightarrow> k \<in> fst ` set ps"
    by (force simp: obj_get_def dest: map_of_SomeD split: option.splits)
  note r = resolved_shorthand [OF assms]
  show ?thesis
    by (auto simp: r obj_get_spread distinct_DP distinct_DS dest: has)
qed


text \<open>
  At \<^verbatim>\<open>{ pagination: { defaultPageSize: 50 } }\<close>: the defaults are filled in around the
  override, and the absent \<^verbatim>\<open>search\<close> resolves to the full default search object.
\<close>

lemma page_size_50_resolved:
  "obj_get ''pagination''
     (resolveCollectionAffordances
        (JObj [(''pagination'', JObj [(''defaultPageSize'', JNum 50)])]))
   = JObj [(''defaultPageSize'', JNum 50),
           (''pageSizeOptions'', JArr [JNum 10, JNum 25, JNum 50, JNum 100]),
           (''style'', JStr ''pages''), (''serverSide'', JBool False)]"
  by code_simp

lemma default_search_resolved:
  "obj_get ''search''
     (resolveCollectionAffordances
        (JObj [(''pagination'', JObj [(''defaultPageSize'', JNum 50)])]))
   = JObj DEFAULT_SEARCH"
  by code_simp

theorem shorthand_normalization_witness:
  "obj_get ''pagination''
     (resolveCollectionAffordances
        (JObj [(''pagination'', JObj [(''defaultPageSize'', JNum 50)])]))
   = JObj [(''defaultPageSize'', JNum 50),
           (''pageSizeOptions'', JArr [JNum 10, JNum 25, JNum 50, JNum 100]),
           (''style'', JStr ''pages''), (''serverSide'', JBool False)]
   \<and> obj_get ''pagination''
     (resolveCollectionAffordances
        (JObj [(''pagination'', JObj [(''defaultPageSize'', JNum 50)])])) \<noteq> JBool True
   \<and> obj_get ''search''
     (resolveCollectionAffordances
        (JObj [(''pagination'', JObj [(''defaultPageSize'', JNum 50)])])) \<noteq> JBool True"
  using shorthand_normalization [of "[(''pagination'', JObj [(''defaultPageSize'', JNum 50)])]"]
    page_size_50_resolved
  by simp

section \<open>Numeric bounds\<close>

text \<open>
  Claim C5: \<^verbatim>\<open>getNumericBounds\<close> returns a record of a minimum and a maximum. An
  instance-level bound (a \<^verbatim>\<open>minValue\<close> or \<^verbatim>\<open>maxValue\<close> that is a number other than the
  safe-integer sentinel) is the result whatever the checks say. When there is no
  instance-level bound, the first check of kind \<^verbatim>\<open>min\<close> (of kind \<^verbatim>\<open>max\<close>) that occurs
  in the checks list gives the result, and the later checks of that kind are ignored.
  A check of these kinds carries its bound in \<^verbatim>\<open>value\<close>; the theorem is about checks
  that do. \<open>t\<close> is the unwrapped node.
\<close>

theorem getNumericBounds_precedence:
  assumes "unwrapZodSchema schema = Inr t"
  shows "\<exists>r. getNumericBounds schema = Inr r
    \<and> (typeof (minValue t) = ''number'' \<and> minValue t \<noteq> JNum (- MAX_SAFE_INTEGER)
         \<longrightarrow> bounds_min r = minValue t)
    \<and> (typeof (maxValue t) = ''number'' \<and> maxValue t \<noteq> JNum MAX_SAFE_INTEGER
         \<longrightarrow> bounds_max r = maxValue t)
    \<and> (\<forall>d cs c. \<not> (typeof (minValue t) = ''number'' \<and> minValue t \<noteq> JNum (- MAX_SAFE_INTEGER))
           \<and> zod_def t = Some d \<and> checks d = Some cs
           \<and> find (\<lambda>c. check_kind c = Some ''min'') cs = Some c \<and> check_value c \<noteq> JUndefined
           \<longrightarrow> bounds_min r = check_value c)
    \<and> (\<forall>d cs c. \<not> (typeof (maxValue t) = ''number'' \<and> maxValue t \<noteq> JNum MAX_SAFE_INTEGER)
           \<and> zod_def t = Some d \<and> checks d = Some cs
           \<and> find (\<lambda>c. check_kind c = Some ''max'') cs = Some c \<and> check_value c \<noteq> JUndefined
           \<longrightarrow> bounds_max r = check_value c)"
proof (cases "zod_def t")
  case None
  with assms show ?thesis
    by (simp add: getNumericBounds_def Let_def strict_equal_num)
next
  case (Some d)
  show ?thesis
  proof (cases "checks d")
    case None
    with Some assms show ?thesis
      by (simp add: getNumericBounds_def Let_def strict_equal_num)
  next
    case (Some cs)
    with \<open>zod_def t = Some d\<close> assms show ?thesis
      by (auto simp: getNumericBounds_def Let_def strict_equal_num fold_bounds_min_kept
          fold_bounds_max_kept fold_bounds_min_first fold_bounds_max_first typeof_number_defined)
  qed
qed

text \<open>
  At the example node, an optional number with instance minimum 3 and the checks
  min 1, min 5, max 9, max 2: the minimum is the instance one, the maximum is the first
  \<^verbatim>\<open>max\<close> check.
\<close>

theorem getNumericBounds_precedence_witness:
  "\<exists>r. getNumericBounds bounded_number = Inr r \<and> bounds_min r = JNum 3 \<and> bounds_max r = JNum 9"
proof -
  let ?t = "ZNode (Some (ZDef (Some ''number'') None
           (Some [ZCheck (Some ''min'') (JNum 1), ZCheck (Some ''min'') (JNum 5),
                  ZCheck (Some ''max'') (JNum 9), ZCheck (Some ''max'') (JNum 2)])
           None None None False))
         (JNum 3) JUndefined None"
  have u: "unwrapZodSchema bounded_number = Inr ?t" by code_simp
  from getNumericBounds_precedence [OF u] obtain r where
    r: "getNumericBounds bounded_number = Inr r"
    and mn: "typeof (minValue ?t) = ''number'' \<and> minValue ?t \<noteq> JNum (- MAX_SAFE_INTEGER)
         \<longrightarrow> bounds_min r = minValue ?t"
    and mx: "\<forall>d cs c. \<not> (typeof (maxValue ?t) = ''number'' \<and> maxValue ?t \<noteq> JNum MAX_SAFE_INTEGER)
           \<and> zod_def ?t = Some d \<and> checks d = Some cs
           \<and> find (\<lambda>c. check_kind c = Some ''max'') cs = Some c \<and> check_value c \<noteq> JUndefined
           \<longrightarrow> bounds_max r = check_value c"
    by blast
  from mn have "bounds_min r = JNum 3" by (simp add: MAX_SAFE_INTEGER_def)
  moreover from mx have "bounds_max r = JNum 9" by simp
  ultimately show ?thesis using r by blast
qed


section \<open>The status enum and its filter options\<close>

text \<open>
  Claim C6: a field named \<^verbatim>\<open>status\<close> of enum type with the members \<^verbatim>\<open>draft\<close>,
  \<^verbatim>\<open>active\<close>, \<^verbatim>\<open>archived\<close> and no overrides resolves with \<^verbatim>\<open>groupable\<close> true and
  \<^verbatim>\<open>filterable\<close> \<^verbatim>\<open>'select'\<close>, and \<^verbatim>\<open>toFilterConfig\<close> emits for it one entry whose options
  are Draft/draft, Active/active, Archived/archived, in declaration order, each label
  the value with its first letter capitalized.
\<close>

theorem status_enum_filter_options:
  "(\<exists>fa. inferFieldAffordances ''status'' (z_enum [''draft'', ''active'', ''archived'']) = Inr fa
      \<and> obj_get ''groupable'' fa = JBool True \<and> obj_get ''filterable'' fa = JStr ''select'')
   \<and> (\<exists>c f. defineCollection status_shape None = Inr c
      \<and> toFilterConfig c = Inr [f] \<and> filter_name f = ''status'' \<and> filterType f = ''select''
      \<and> filter_options f = Some [(''Draft'', ''draft''), (''Active'', ''active''),
                                  (''Archived'', ''archived'')])"
proof
  show "\<exists>fa. inferFieldAffordances ''status'' (z_enum [''draft'', ''active'', ''archived'']) = Inr fa
      \<and> obj_get ''groupable'' fa = JBool True \<and> obj_get ''filterable'' fa = JStr ''select''"
    by (simp add: status_inferred obj_get_def)
next
  from status_filter_config obtain c where
    c: "defineCollection status_shape None = Inr c"
    and f: "toFilterConfig c = Inr [\<lparr>filter_name = ''status'', filter_label = JStr ''Status'',
           filterType = ''select'',
           filter_options = Some [(''Draft'', ''draft''), (''Active'', ''active''),
                                  (''Archived'', ''archived'')],
           filter_bounds = None, filter_zodType = JStr ''enum''\<rparr>]"
    by (cases "defineCollection status_shape None") auto
  then show "\<exists>c f. defineCollection status_shape None = Inr c
      \<and> toFilterConfig c = Inr [f] \<and> filter_name f = ''status'' \<and> filterType f = ''select''
      \<and> filter_options f = Some [(''Draft'', ''draft''), (''Active'', ''active''),
                                  (''Archived'', ''archived'')]"
    by simp
qed


section \<open>Unrecognized and malformed schema nodes\<close>




section \<open>The initial column visibility\<close>

text \<open>
  Claim C8: for every collection definition, the initial column-visibility map of the
  store has an entry exactly for the fields resolved as not visible
  (\<^verbatim>\<open>visible === false\<close>) or explicitly hidden (a truthy \<^verbatim>\<open>hidden\<close>), the value of each
  entry is \<^verbatim>\<open>false\<close>, every other field is absent from the map, and no key is present
  with value \<^verbatim>\<open>true\<close>. The map has one entry per key.
\<close>

theorem initial_visibility_hidden_only:
  "distinct (map fst (columnVisibility (initialState c :: 'a CollectionState)))
   \<and> map_of (columnVisibility (initialState c :: 'a CollectionState)) k =
     (if \<exists>fa. (k, fa) \<in> set (fieldAffordances c)
            \<and> (obj_get ''visible'' fa = JBool False \<or> truthy (obj_get ''hidden'' fa))
      then Some False else None)"
  by (simp add: initialState_def Let_def buildInitialVisibility_def map_of_visibility_fold
      distinct_visibility_fold)

text \<open>
  At the contact collection (\<^verbatim>\<open>id\<close> hidden by inference, \<^verbatim>\<open>notes\<close> hidden by the config):
  \<^verbatim>\<open>id\<close> and \<^verbatim>\<open>notes\<close> map to \<^verbatim>\<open>false\<close>, \<^verbatim>\<open>name\<close> is absent.
\<close>

theorem initial_visibility_hidden_only_witness:
  "\<exists>c. defineCollection contact_shape (Some contact_config) = Inr c
     \<and> map_of (columnVisibility (initialState c :: unit CollectionState)) ''id'' = Some False
     \<and> map_of (columnVisibility (initialState c :: unit CollectionState)) ''name'' = None
     \<and> map_of (columnVisibility (initialState c :: unit CollectionState)) ''notes'' = Some False"
proof -
  from contact_fields obtain c where
    c: "defineCollection contact_shape (Some contact_config) = Inr c"
    and f: "map (\<lambda>(k, fa). (k, obj_get ''visible'' fa, obj_get ''hidden'' fa)) (fieldAffordances c)
       = [(''id'', JBool False, JUndefined), (''name'', JBool True, JUndefined),
          (''notes'', JBool True, JBool True)]"
    by (cases "defineCollection contact_shape (Some contact_config)") auto
  from f obtain f1 f2 f3 where
    fs: "fieldAffordances c = [(''id'', f1), (''name'', f2), (''notes'', f3)]"
    and v: "obj_get ''visible'' f1 = JBool False" "obj_get ''visible'' f2 = JBool True"
      "obj_get ''hidden'' f2 = JUndefined" "obj_get ''hidden'' f3 = JBool True"
    by (auto simp: map_eq_Cons_conv)
  have "map_of (columnVisibility (initialState c :: unit CollectionState)) ''id'' = Some False"
    using initial_visibility_hidden_only [where ?'a = unit, of c "''id''"] fs v by simp
  moreover have "map_of (columnVisibility (initialState c :: unit CollectionState)) ''name'' = None"
    using initial_visibility_hidden_only [where ?'a = unit, of c "''name''"] fs v by simp
  moreover have "map_of (columnVisibility (initialState c :: unit CollectionState)) ''notes'' = Some False"
    using initial_visibility_hidden_only [where ?'a = unit, of c "''notes''"] fs v by simp
  ultimately show ?thesis using c by blast
qed


section \<open>Unwrapping is idempotent\<close>

text \<open>
  Claim C9: schema unwrapping is idempotent. For every node whose wrapper layers carry
  their inner node (every node Zod builds), \<^verbatim>\<open>unwrapZodSchema\<close> returns a terminal,
  wrapper-free node, and unwrapping that node again returns it unchanged; applied to a
  node that is already terminal, it returns the node itself.
\<close>

theorem unwrapZodSchema_idempotent:
  "(wrappers_ok n \<longrightarrow>
      (\<exists>t. unwrapZodSchema n = Inr t \<and> is_terminal t \<and> unwrapZodSchema t = Inr t))
   \<and> (is_terminal n \<longrightarrow> unwrapZodSchema n = Inr n)"
proof
  show "wrappers_ok n \<longrightarrow>
      (\<exists>t. unwrapZodSchema n = Inr t \<and> is_terminal t \<and> unwrapZodSchema t = Inr t)"
  proof (induction n rule: unwrapZodSchema.induct)
    case (1 mn mx m)
    show ?case by (simp add: is_terminal_def)
  next
    case (2 t inner cs f es vs dv mn mx m)
    show ?case
    proof (cases "is_wrapper t")
      case True
      with 2 show ?thesis by (cases inner) auto
    next
      case False
      then show ?thesis by (simp add: is_terminal_def)
    qed
  qed
next
  show "is_terminal n \<longrightarrow> unwrapZodSchema n = Inr n"
  proof (cases n)
    case (ZNode d mn mx m)
    then show ?thesis
    proof (cases d)
      case None
      with ZNode show ?thesis by simp
    next
      case (Some dd)
      with ZNode show ?thesis by (cases dd) (simp add: is_terminal_def)
    qed
  qed
qed


text \<open>
  At \<^verbatim>\<open>z.string().optional().optional()\<close>: the node is well formed, unwrapping reaches a
  terminal node that is a fixed point, and \<^verbatim>\<open>z.string()\<close> itself is returned unchanged.
\<close>

theorem unwrapZodSchema_idempotent_witness:
  "wrappers_ok (z_optional (z_optional z_string))
   \<and> (\<exists>t. unwrapZodSchema (z_optional (z_optional z_string)) = Inr t \<and> is_terminal t
          \<and> unwrapZodSchema t = Inr t)
   \<and> is_terminal z_string \<and> unwrapZodSchema z_string = Inr z_string"
proof -
  have w: "wrappers_ok (z_optional (z_optional z_string))" by code_simp
  have t: "is_terminal z_string" by code_simp
  from unwrapZodSchema_idempotent [of "z_optional (z_optional z_string)"] w
  have a: "\<exists>t. unwrapZodSchema (z_optional (z_optional z_string)) = Inr t \<and> is_terminal t
          \<and> unwrapZodSchema t = Inr t" by blast
  from unwrapZodSchema_idempotent [of z_string] t
  have b: "unwrapZodSchema z_string = Inr z_string" by blast
  from w a t b show ?thesis by blast
qed


section \<open>Store actions and the pagination sub-record\<close>

text \<open>
  Claim C10, as stated: \<^verbatim>\<open>setColumnFilters\<close> and \<^verbatim>\<open>setGlobalFilter\<close> put the page index
  back to 0 and keep the page size, and no other setter action modifies the pagination
  sub-record. The last part fails on \<^verbatim>\<open>setPagination\<close>, the setter whose purpose is to
  replace that sub-record.
\<close>

theorem setPagination_modifies_pagination:
  "pagination (setPagination example_state \<lparr>pageIndex = JNum 2, pageSize = JNum 50\<rparr>)
     \<noteq> pagination example_state"
  by (simp add: setPagination_def example_state_def)

text \<open>
  Claim C10, amended: for every state and every argument, \<^verbatim>\<open>setColumnFilters\<close> and
  \<^verbatim>\<open>setGlobalFilter\<close> return a state whose page index is 0 and whose page size is that
  of the input state; \<^verbatim>\<open>setPagination\<close> replaces the pagination sub-record by its
  argument; every other setter, \<^verbatim>\<open>clearSelection\<close> and \<^verbatim>\<open>selectAll\<close> leave the
  sub-record as it is; \<^verbatim>\<open>reset\<close> sets the page index to 0 and keeps the page size.
\<close>

theorem filter_actions_reset_page_index:
  "pageIndex (pagination (setColumnFilters s filters)) = JNum 0
   \<and> pageSize (pagination (setColumnFilters s filters)) = pageSize (pagination s)
   \<and> pageIndex (pagination (setGlobalFilter s flt)) = JNum 0
   \<and> pageSize (pagination (setGlobalFilter s flt)) = pageSize (pagination s)
   \<and> pagination (setPagination s pg) = pg
   \<and> pagination (setItems s its tot) = pagination s
   \<and> pagination (setSorting s srt) = pagination s
   \<and> pagination (setRowSelection s selection) = pagination s
   \<and> pagination (setColumnVisibility s visibility) = pagination s
   \<and> pagination (setColumnOrder s ord) = pagination s
   \<and> pagination (setGrouping s grp) = pagination s
   \<and> pagination (setLoading s l) = pagination s
   \<and> pagination (setError s e) = pagination s
   \<and> pagination (clearSelection s) = pagination s
   \<and> pagination (selectAll s) = pagination s
   \<and> pageIndex (pagination (reset initial_sorting s)) = JNum 0
   \<and> pageSize (pagination (reset initial_sorting s)) = pageSize (pagination s)"
  by (simp add: setColumnFilters_def setGlobalFilter_def setPagination_def setItems_def
      setSorting_def setRowSelection_def setColumnVisibility_def setColumnOrder_def
      setGrouping_def setLoading_def setError_def clearSelection_def selectAll_def reset_def)

theorem filter_actions_reset_page_index_witness:
  "pageIndex (pagination (setColumnFilters example_state
       [\<lparr>filter_id = ''status'', filter_value = JStr ''active''\<rparr>])) = JNum 0
   \<and> pageSize (pagination (setColumnFilters example_state
       [\<lparr>filter_id = ''status'', filter_value = JStr ''active''\<rparr>])) = JNum 10
   \<and> pageIndex (pagination (setGlobalFilter example_state ''alpha'')) = JNum 0
   \<and> pageSize (pagination (setGlobalFilter example_state ''alpha'')) = JNum 10"
  using filter_actions_reset_page_index [of example_state
      "[\<lparr>filter_id = ''status'', filter_value = JStr ''active''\<rparr>]" "''alpha''"]
  by (simp add: example_state_def)

end
